theory Spec2Isabelle
  imports Complex_Main "HOL-Library.Multiset"
begin

section \<open>Values of the JavaScript run time\<close>

text \<open>
  A JavaScript number is a double. The model keeps the three values that are not
  finite apart and takes a finite one as the real number it stands for; rounding to
  53 bits of mantissa and the sign of zero are not modelled.
\<close>

datatype jsnumber = NaN | PosInfinity | NegInfinity | Finite real

text \<open>A value of a JSON request body, as \<open>express.json()\<close> delivers it.\<close>

datatype json =
    JNull
  | JBool bool
  | JNumber jsnumber
  | JString string
  | JArray "json list"
  | JObject "(string \<times> json) list"

subsection \<open>\<open>parseFloat\<close>\<close>

text \<open>
  A string of the model is the UTF-8 encoding of the JavaScript string, byte by byte.

  \<open>parseFloat\<close> skips leading white space, reads an optional sign and then the
  longest prefix that is a decimal literal (\<open>Infinity\<close>, or digits with an optional
  fraction and exponent). Whatever follows is ignored. When there is no such prefix
  the result is \<open>NaN\<close>.

  White space is the language's \<open>StrWhiteSpaceChar\<close>: tab, line feed, vertical tab,
  form feed, carriage return and space (one byte each), U+00A0 (two bytes), and
  U+1680, U+2000 to U+200A, U+2028, U+2029, U+202F, U+205F, U+3000 and U+FEFF (three
  bytes each). \<open>whiteSpaceLength\<close> is the number of bytes of the white space
  character a string starts with, and 0 when it starts with none.
\<close>

definition whiteSpaceLength :: "string \<Rightarrow> nat" where
  "whiteSpaceLength s =
     (let b = map (of_char :: char \<Rightarrow> nat) s in
      if take 1 b \<in> set [[9], [10], [11], [12], [13], [32]] then 1
      else if take 2 b = [194, 160] then 2
      else if take 3 b \<in> set ([[225, 154, 128], [226, 128, 168], [226, 128, 169], [226, 128, 175],
                                [226, 129, 159], [227, 128, 128], [239, 187, 191]] @
                               map (\<lambda>x. [226, 128, x]) [128..<139]) then 3
      else 0)"

function skipWhiteSpace :: "string \<Rightarrow> string" where
  "skipWhiteSpace s =
     (if whiteSpaceLength s = 0 then s else skipWhiteSpace (drop (whiteSpaceLength s) s))"
  by pat_completeness auto
termination
proof (relation "measure length")
  show "wf (measure length)" by simp
next
  fix s :: string
  assume "whiteSpaceLength s \<noteq> 0"
  moreover have "whiteSpaceLength [] = 0" by (simp add: whiteSpaceLength_def)
  ultimately have "s \<noteq> []" by auto
  with \<open>whiteSpaceLength s \<noteq> 0\<close> show "(drop (whiteSpaceLength s) s, s) \<in> measure length"
    by simp
qed

declare skipWhiteSpace.simps [simp del]

definition isDigit :: "char \<Rightarrow> bool" where
  "isDigit c \<longleftrightarrow> (48 :: nat) \<le> of_char c \<and> (of_char c :: nat) \<le> 57"

definition digitsValue :: "string \<Rightarrow> nat" where
  "digitsValue ds = foldl (\<lambda>a c. 10 * a + (of_char c - 48)) 0 ds"

definition scale10 :: "int \<Rightarrow> int \<Rightarrow> real" where
  "scale10 m e = (if 0 \<le> e then of_int m * 10 ^ nat e else of_int m / 10 ^ nat (- e))"

text \<open>The exponent part: \<open>e\<close> or \<open>E\<close>, an optional sign, at least one digit.\<close>

definition parseExponent :: "string \<Rightarrow> int" where
  "parseExponent s =
     (case s of
        [] \<Rightarrow> 0
      | c # r \<Rightarrow>
          if c = CHR ''e'' \<or> c = CHR ''E'' then
            (case r of
               [] \<Rightarrow> 0
             | g # r' \<Rightarrow>
                 if g = CHR ''-'' then - int (digitsValue (takeWhile isDigit r'))
                 else if g = CHR ''+'' then int (digitsValue (takeWhile isDigit r'))
                 else int (digitsValue (takeWhile isDigit r)))
          else 0)"

definition parseUnsigned :: "bool \<Rightarrow> string \<Rightarrow> jsnumber" where
  "parseUnsigned neg u =
     (if take 8 u = ''Infinity'' then (if neg then NegInfinity else PosInfinity)
      else
        let ip = takeWhile isDigit u;
            r1 = dropWhile isDigit u;
            fp = (case r1 of
                    [] \<Rightarrow> []
                  | c # r \<Rightarrow> if c = CHR ''.'' then takeWhile isDigit r else []);
            r2 = (case r1 of
                    [] \<Rightarrow> []
                  | c # r \<Rightarrow> if c = CHR ''.'' then dropWhile isDigit r else r1)
        in if ip = [] \<and> fp = [] then NaN
           else
             let m = int (digitsValue (ip @ fp));
                 e = parseExponent r2 - int (length fp)
             in Finite (scale10 (if neg then - m else m) e))"

definition parseFloat_str :: "string \<Rightarrow> jsnumber" where
  "parseFloat_str s =
     (case skipWhiteSpace s of
        [] \<Rightarrow> NaN
      | c # r \<Rightarrow>
          if c = CHR ''-'' then parseUnsigned True r
          else if c = CHR ''+'' then parseUnsigned False r
          else parseUnsigned False (c # r))"

text \<open>
  A form field that the request does not carry is \<open>undefined\<close>; \<open>parseFloat\<close>
  converts its argument to a string first, and \<open>"undefined"\<close> has no numeric prefix.
\<close>

definition parseFloat :: "string option \<Rightarrow> jsnumber" where
  "parseFloat v = (case v of None \<Rightarrow> parseFloat_str ''undefined'' | Some s \<Rightarrow> parseFloat_str s)"

text \<open>
  \<open>count / limit\<close> on two integers, and \<open>Math.ceil\<close>. Division by zero gives an
  infinity, and \<open>0 / 0\<close> gives \<open>NaN\<close>.
\<close>

definition js_div :: "int \<Rightarrow> int \<Rightarrow> jsnumber" where
  "js_div a b =
     (if b = 0 then (if a = 0 then NaN else if 0 < a then PosInfinity else NegInfinity)
      else Finite (of_int a / of_int b))"

definition Math_ceil :: "jsnumber \<Rightarrow> jsnumber" where
  "Math_ceil x = (case x of Finite r \<Rightarrow> Finite (of_int \<lceil>r\<rceil>) | _ \<Rightarrow> x)"

section \<open>The Pothole model (\<open>models/Pothole.js\<close>)\<close>

text \<open>
  An \<open>ObjectId\<close> is taken as the number it holds, a date as the milliseconds since
  the epoch that \<open>Date.now()\<close> returns.
\<close>

type_synonym oid = nat
type_synonym date = nat

record coordinates =
  longitude :: jsnumber
  latitude :: jsnumber

text \<open>
  A stored document. \<open>id_p\<close> is the document's \<open>_id\<close> and \<open>image_p\<close> its
  \<open>image\<close> path.
\<close>

record pothole =
  id_p :: oid
  distance :: jsnumber
  image_p :: string
  gps :: coordinates
  vehicle_name :: string
  vehicle_ground_level :: jsnumber
  pothole_status :: string
  reportedBy :: oid
  createdAt :: date
  updatedAt :: date

text \<open>
  What \<open>populate("reportedBy", "name email")\<close> puts in the place of the reference:
  the user's \<open>_id\<close>, name and email, or \<open>null\<close> when no user has that id.
\<close>

record reporter =
  reporter_id :: oid
  reporter_name :: string
  reporter_email :: string

record populated =
  doc :: pothole
  reporter :: "reporter option"

text \<open>
  The world the routes act on: the collection in its natural (insertion) order, the
  users a populate can look up, the regular files that exist (as paths from the
  application's root), and the wall clock.
\<close>

record world =
  potholes :: "pothole list"
  users :: "oid \<Rightarrow> reporter option"
  files :: "string set"
  clock :: nat

text \<open>
  \<open>Date.now()\<close> reads the clock. Time passes between two reads: each read takes the
  time \<open>d\<close> that has passed since the read before it, so the clock never runs
  backwards.
\<close>

definition Date_now :: "nat \<Rightarrow> world \<Rightarrow> date \<times> world" where
  "Date_now d w = (clock w + d, w\<lparr>clock := clock w + d\<rparr>)"

definition status_enum :: "string list" where
  "status_enum = [''pending'', ''inprocess'', ''completed'']"

text \<open>The errors the library rejects a call with.\<close>

datatype mongoose_error =
    CastError string
  | MongooseValidationError "string list"
  | DuplicateKey
  | MongoServerError string

text \<open>
  The schema type \<open>Number\<close> casts a number to itself, except \<open>NaN\<close>, which is a
  cast error that validation reports. A required \<open>String\<close> must be present and not
  empty.
\<close>

definition castNumber :: "jsnumber \<Rightarrow> jsnumber option" where
  "castNumber x = (if x = NaN then None else Some x)"

definition requiredString :: "string option \<Rightarrow> bool" where
  "requiredString v = (case v of None \<Rightarrow> False | Some s \<Rightarrow> s \<noteq> [])"

text \<open>The object the route hands to \<open>Pothole.create\<close>.\<close>

record pothole_fields =
  distance_in :: jsnumber
  image_in :: string
  longitude_in :: jsnumber
  latitude_in :: jsnumber
  vehicle_name_in :: "string option"
  vehicle_ground_level_in :: jsnumber
  reportedBy_in :: oid

text \<open>The paths of the schema that fail validation, in the schema's order.\<close>

definition invalid_paths :: "pothole_fields \<Rightarrow> string list" where
  "invalid_paths inp =
     (if castNumber (distance_in inp) = None then [''distance''] else []) @
     (if requiredString (Some (image_in inp)) then [] else [''image'']) @
     (if castNumber (longitude_in inp) = None then [''gps.longitude''] else []) @
     (if castNumber (latitude_in inp) = None then [''gps.latitude''] else []) @
     (if requiredString (vehicle_name_in inp) then [] else [''vehicle_name'']) @
     (if castNumber (vehicle_ground_level_in inp) = None then [''vehicle_ground_level''] else [])"

text \<open>
  The document as the constructor builds it: the fields given, \<open>pothole_status\<close>
  from its default \<open>"pending"\<close>, \<open>createdAt\<close> and \<open>updatedAt\<close> from their default
  \<open>Date.now\<close>, which the constructor calls once for each of the two.
\<close>

definition new_Pothole :: "oid \<Rightarrow> date \<Rightarrow> date \<Rightarrow> pothole_fields \<Rightarrow> pothole" where
  "new_Pothole new_id t_created t_updated inp =
     \<lparr>id_p = new_id,
      distance = distance_in inp,
      image_p = image_in inp,
      gps = \<lparr>longitude = longitude_in inp, latitude = latitude_in inp\<rparr>,
      vehicle_name = (case vehicle_name_in inp of None \<Rightarrow> [] | Some s \<Rightarrow> s),
      vehicle_ground_level = vehicle_ground_level_in inp,
      pothole_status = ''pending'',
      reportedBy = reportedBy_in inp,
      createdAt = t_created,
      updatedAt = t_updated\<rparr>"

text \<open>The hook \<open>potholeSchema.pre("save")\<close>: \<open>this.updatedAt = Date.now()\<close>.\<close>

definition pre_save :: "nat \<Rightarrow> pothole \<Rightarrow> world \<Rightarrow> pothole \<times> world" where
  "pre_save d p w = (case Date_now d w of (t, w') \<Rightarrow> (p\<lparr>updatedAt := t\<rparr>, w'))"

text \<open>
  \<open>Pothole.create\<close>: build the document, validate it, run the save hook, insert.
  \<open>new_id\<close> is the \<open>_id\<close> the driver generates; the collection's unique index on
  \<open>_id\<close> refuses one that is taken. \<open>d1\<close>, \<open>d2\<close> and \<open>d3\<close> are the times that
  pass before the three reads of the clock.
\<close>

definition Pothole_create ::
  "oid \<Rightarrow> nat \<Rightarrow> nat \<Rightarrow> nat \<Rightarrow> pothole_fields \<Rightarrow> world \<Rightarrow> (mongoose_error + pothole) \<times> world" where
  "Pothole_create new_id d1 d2 d3 inp w =
     (case Date_now d1 w of (t_created, w1) \<Rightarrow>
       (case Date_now d2 w1 of (t_updated, w2) \<Rightarrow>
          if invalid_paths inp \<noteq> [] then (Inl (MongooseValidationError (invalid_paths inp)), w2)
          else
            (case pre_save d3 (new_Pothole new_id t_created t_updated inp) w2 of (p, w3) \<Rightarrow>
               if new_id \<in> set (map id_p (potholes w3)) then (Inl DuplicateKey, w3)
               else (Inr p, w3\<lparr>potholes := potholes w3 @ [p]\<rparr>))))"

text \<open>
  The route parameter \<open>:id\<close> is a string that the library casts to an \<open>ObjectId\<close>.
  The model takes it after the cast: either the \<open>ObjectId\<close> it denotes, or a string
  that denotes none, on which every query by id is rejected with a cast error.
\<close>

datatype id_param = ObjectId oid | NotAnObjectId string

definition Pothole_findById :: "id_param \<Rightarrow> world \<Rightarrow> mongoose_error + pothole option" where
  "Pothole_findById idp w =
     (case idp of
        NotAnObjectId s \<Rightarrow> Inl (CastError ''_id'')
      | ObjectId i \<Rightarrow> Inr (find (\<lambda>p. id_p p = i) (potholes w)))"

fun update_first :: "('a \<Rightarrow> bool) \<Rightarrow> ('a \<Rightarrow> 'a) \<Rightarrow> 'a list \<Rightarrow> 'a list" where
  "update_first P f [] = []"
| "update_first P f (x # xs) = (if P x then f x # xs else x # update_first P f xs)"

text \<open>
  \<open>Pothole.findByIdAndUpdate(id, {pothole_status, updatedAt}, {new: true,
  runValidators: true})\<close>: the update validator checks the status against the
  schema's enumeration, the first document with that \<open>_id\<close> gets the two fields set,
  and the document as updated is returned (\<open>null\<close> when there is none). Save hooks
  do not run on this path.
\<close>

definition Pothole_findByIdAndUpdate ::
  "id_param \<Rightarrow> string \<Rightarrow> date \<Rightarrow> world \<Rightarrow> (mongoose_error + pothole option) \<times> world" where
  "Pothole_findByIdAndUpdate idp new_status t w =
     (case idp of
        NotAnObjectId s \<Rightarrow> (Inl (CastError ''_id''), w)
      | ObjectId i \<Rightarrow>
          if new_status \<notin> set status_enum then
            (Inl (MongooseValidationError [''pothole_status'']), w)
          else
            (case find (\<lambda>p. id_p p = i) (potholes w) of
               None \<Rightarrow> (Inr None, w)
             | Some p \<Rightarrow>
                 (Inr (Some (p\<lparr>pothole_status := new_status, updatedAt := t\<rparr>)),
                  w\<lparr>potholes :=
                      update_first (\<lambda>p. id_p p = i)
                        (\<lambda>p. p\<lparr>pothole_status := new_status, updatedAt := t\<rparr>) (potholes w)\<rparr>)))"

fun delete_first :: "('a \<Rightarrow> bool) \<Rightarrow> 'a list \<Rightarrow> 'a list" where
  "delete_first P [] = []"
| "delete_first P (x # xs) = (if P x then xs else x # delete_first P xs)"

text \<open>\<open>pothole.deleteOne()\<close> deletes the document with this document's \<open>_id\<close>.\<close>

definition deleteOne :: "pothole \<Rightarrow> world \<Rightarrow> world" where
  "deleteOne p w = w\<lparr>potholes := delete_first (\<lambda>q. id_p q = id_p p) (potholes w)\<rparr>"

subsection \<open>Queries\<close>

text \<open>
  The filter of the list route is empty or \<open>{pothole_status: s}\<close>: \<open>None\<close> or
  \<open>Some s\<close>.
\<close>

type_synonym conditions = "string option"

definition matches :: "conditions \<Rightarrow> pothole \<Rightarrow> bool" where
  "matches q p = (case q of None \<Rightarrow> True | Some s \<Rightarrow> pothole_status p = s)"

definition populate_reportedBy :: "world \<Rightarrow> pothole \<Rightarrow> populated" where
  "populate_reportedBy w p = \<lparr>doc = p, reporter = users w (reportedBy p)\<rparr>"

text \<open>
  \<open>sort({createdAt: -1})\<close>. The sort has no second key, and the database leaves
  the order of documents with equal \<open>createdAt\<close> open: it may differ from one query
  to the next. \<open>tie\<close> is the rank by which the database happens to order such
  documents at the query at hand; documents that agree on it too stay in their natural
  order.
\<close>

definition sort_createdAt_desc :: "(pothole \<Rightarrow> nat) \<Rightarrow> pothole list \<Rightarrow> pothole list" where
  "sort_createdAt_desc tie ps = sort_key (\<lambda>p. - int (createdAt p)) (sort_key tie ps)"

text \<open>
  \<open>skip(k)\<close> and \<open>limit(n)\<close> on the sorted result: a limit of \<open>0\<close> is no limit, and
  a negative limit is the limit of its absolute value.
\<close>

definition skip_limit :: "int \<Rightarrow> int \<Rightarrow> 'a list \<Rightarrow> 'a list" where
  "skip_limit n_skip n_limit xs =
     (let skipped = drop (nat n_skip) xs
      in if n_limit = 0 then skipped else take (nat \<bar>n_limit\<bar>) skipped)"

text \<open>
  \<open>Pothole.find(query).populate(...).sort(...).limit(n).skip(k)\<close>, executed:
  the database filters, sorts, skips and then limits, in this order whatever the order
  of the calls that build the query. It rejects a negative skip.
\<close>

definition Pothole_find ::
  "(pothole \<Rightarrow> nat) \<Rightarrow> conditions \<Rightarrow> int \<Rightarrow> int \<Rightarrow> world \<Rightarrow> mongoose_error + populated list" where
  "Pothole_find tie q n_limit n_skip w =
     (if n_skip < 0 then Inl (MongoServerError ''Skip value must be non-negative'')
      else
        Inr (map (populate_reportedBy w)
               (skip_limit n_skip n_limit
                  (sort_createdAt_desc tie (filter (matches q) (potholes w))))))"

definition countDocuments :: "conditions \<Rightarrow> world \<Rightarrow> nat" where
  "countDocuments q w = length (filter (matches q) (potholes w))"

section \<open>The routes (\<open>routes/potholeRoutes.js\<close>)\<close>

text \<open>
  A route answers with a failure or with the data of its success. The failures are the
  three the routes send: status 400 with a message, status 404 with a message, and,
  from a \<open>catch\<close> block, status 500 with the message of the error caught. The
  middleware in front of the routes (token check, administrator check, the upload's
  storage) has run when a route starts: \<open>req.user\<close> and \<open>req.file\<close> are what it
  left.
\<close>

datatype failure = BadRequest string | NotFound string | ServerError mongoose_error

definition http_status :: "failure \<Rightarrow> nat" where
  "http_status f = (case f of BadRequest m \<Rightarrow> 400 | NotFound m \<Rightarrow> 404 | ServerError e \<Rightarrow> 500)"

subsection \<open>\<open>POST /register\<close>\<close>

text \<open>
  The text fields of the form are strings, or \<open>undefined\<close> (\<open>None\<close>) when the form
  does not carry them. \<open>file_filename\<close> is \<open>req.file.filename\<close>, \<open>None\<close> when the
  request has no image part and \<open>req.file\<close> is \<open>undefined\<close>.
\<close>

record register_request =
  body_distance :: "string option"
  body_longitude :: "string option"
  body_latitude :: "string option"
  body_vehicle_name :: "string option"
  body_vehicle_ground_level :: "string option"
  file_filename :: "string option"
  user_id :: oid

definition register_fields :: "register_request \<Rightarrow> string \<Rightarrow> pothole_fields" where
  "register_fields req filename =
     \<lparr>distance_in = parseFloat (body_distance req),
      image_in = ''/public/uploads/'' @ filename,
      longitude_in = parseFloat (body_longitude req),
      latitude_in = parseFloat (body_latitude req),
      vehicle_name_in = body_vehicle_name req,
      vehicle_ground_level_in = parseFloat (body_vehicle_ground_level req),
      reportedBy_in = user_id req\<rparr>"

definition route_register ::
  "oid \<Rightarrow> nat \<Rightarrow> nat \<Rightarrow> nat \<Rightarrow> register_request \<Rightarrow> world \<Rightarrow> (failure + pothole) \<times> world" where
  "route_register new_id d1 d2 d3 req w =
     (case file_filename req of
        None \<Rightarrow> (Inl (BadRequest ''Image is required''), w)
      | Some filename \<Rightarrow>
          (case Pothole_create new_id d1 d2 d3 (register_fields req filename) w of
             (Inl e, w') \<Rightarrow> (Inl (ServerError e), w')
           | (Inr p, w') \<Rightarrow> (Inr p, w')))"

subsection \<open>\<open>GET /list\<close>\<close>

text \<open>
  The query string's \<open>page\<close> and \<open>limit\<close> are taken as the integers that the
  route's arithmetic (\<open>limit * 1\<close>, \<open>page - 1\<close>) makes of them; \<open>None\<close> is a
  parameter that is absent and takes its default. The first argument of the route is
  the order of ties that the database follows when it runs this request's query.
\<close>

record list_request =
  status_q :: "string option"
  page_q :: "int option"
  limit_q :: "int option"

record list_response =
  data :: "populated list"
  totalPages :: jsnumber
  currentPage :: int
  totalRecords :: nat

definition page_of :: "list_request \<Rightarrow> int" where
  "page_of req = (case page_q req of None \<Rightarrow> 1 | Some p \<Rightarrow> p)"

definition limit_of :: "list_request \<Rightarrow> int" where
  "limit_of req = (case limit_q req of None \<Rightarrow> 10 | Some l \<Rightarrow> l)"

text \<open>\<open>if (status) query.pothole_status = status\<close>: the empty string is falsy.\<close>

definition build_query :: "string option \<Rightarrow> conditions" where
  "build_query st = (case st of None \<Rightarrow> None | Some s \<Rightarrow> if s = [] then None else Some s)"

definition route_list ::
  "(pothole \<Rightarrow> nat) \<Rightarrow> list_request \<Rightarrow> world \<Rightarrow> failure + list_response" where
  "route_list tie req w =
     (let page = page_of req;
          limit = limit_of req;
          query = build_query (status_q req)
      in case Pothole_find tie query (limit * 1) ((page - 1) * limit) w of
           Inl e \<Rightarrow> Inl (ServerError e)
         | Inr ps \<Rightarrow>
             let count = countDocuments query w
             in Inr \<lparr>data = ps,
                     totalPages = Math_ceil (js_div (int count) limit),
                     currentPage = page,
                     totalRecords = count\<rparr>)"

text \<open>The items of an answer; a failure carries none.\<close>

definition items_of :: "failure + list_response \<Rightarrow> populated list" where
  "items_of r = (case r of Inl f \<Rightarrow> [] | Inr a \<Rightarrow> data a)"

subsection \<open>\<open>GET /:id\<close>\<close>

definition route_get :: "id_param \<Rightarrow> world \<Rightarrow> failure + populated" where
  "route_get idp w =
     (case Pothole_findById idp w of
        Inl e \<Rightarrow> Inl (ServerError e)
      | Inr None \<Rightarrow> Inl (NotFound ''Pothole not found'')
      | Inr (Some p) \<Rightarrow> Inr (populate_reportedBy w p))"

subsection \<open>\<open>PUT /update/:id\<close>\<close>

text \<open>
  \<open>["pending", "inprocess", "completed"].includes(pothole_status)\<close> compares by
  \<open>SameValueZero\<close>, which on strings is equality: it holds of a string that is one
  of the three and of no other value, \<open>undefined\<close> (\<open>None\<close>) included.
  \<open>allowed_status\<close> is that string, the status the update then sets.
\<close>

definition allowed_status :: "json option \<Rightarrow> string option" where
  "allowed_status v =
     (case v of
        Some (JString s) \<Rightarrow>
          if s \<in> set [''pending'', ''inprocess'', ''completed''] then Some s else None
      | _ \<Rightarrow> None)"

definition route_update ::
  "nat \<Rightarrow> id_param \<Rightarrow> json option \<Rightarrow> world \<Rightarrow> (failure + pothole) \<times> world" where
  "route_update d idp body_status w =
     (case allowed_status body_status of
        None \<Rightarrow> (Inl (BadRequest ''Invalid status value''), w)
      | Some s \<Rightarrow>
          (case Date_now d w of (t, w1) \<Rightarrow>
            (case Pothole_findByIdAndUpdate idp s t w1 of
               (Inl e, w2) \<Rightarrow> (Inl (ServerError e), w2)
             | (Inr None, w2) \<Rightarrow> (Inl (NotFound ''Pothole not found''), w2)
             | (Inr (Some p), w2) \<Rightarrow> (Inr p, w2))))"

subsection \<open>\<open>DELETE /:id\<close>\<close>

text \<open>
  \<open>path.join(__dirname, "..", pothole.image)\<close> is the stored image path under the
  application's root, and the paths of \<open>files\<close> start there.
\<close>

definition imagePath :: "pothole \<Rightarrow> string" where
  "imagePath p = image_p p"

definition existsSync :: "string \<Rightarrow> world \<Rightarrow> bool" where
  "existsSync path w \<longleftrightarrow> path \<in> files w"

definition unlinkSync :: "string \<Rightarrow> world \<Rightarrow> world" where
  "unlinkSync path w = w\<lparr>files := files w - {path}\<rparr>"

definition delete_image :: "pothole \<Rightarrow> world \<Rightarrow> world" where
  "delete_image p w = (if existsSync (imagePath p) w then unlinkSync (imagePath p) w else w)"

definition route_delete :: "id_param \<Rightarrow> world \<Rightarrow> (failure + unit) \<times> world" where
  "route_delete idp w =
     (case Pothole_findById idp w of
        Inl e \<Rightarrow> (Inl (ServerError e), w)
      | Inr None \<Rightarrow> (Inl (NotFound ''Pothole not found''), w)
      | Inr (Some p) \<Rightarrow> (Inr (), deleteOne p (delete_image p w)))"

section \<open>The invariant of the collection\<close>

text \<open>
  What holds of the collection after any sequence of the routes from the empty
  collection: the \<open>_id\<close>s are distinct, every status is one of the enumeration, and
  \<open>createdAt \<le> updatedAt \<le> now\<close> for every document.
\<close>

definition wf :: "world \<Rightarrow> bool" where
  "wf w \<longleftrightarrow>
     distinct (map id_p (potholes w)) \<and>
     (\<forall>p \<in> set (potholes w).
        pothole_status p \<in> set status_enum \<and> createdAt p \<le> updatedAt p \<and> updatedAt p \<le> clock w)"

definition empty_world :: world where
  "empty_world = \<lparr>potholes = [], users = (\<lambda>i. None), files = {}, clock = 0\<rparr>"

section \<open>A sample collection\<close>

text \<open>
  Three reports of one vehicle, registered in this order at distances 1.2, 3.4 and
  0.9, by user 7; the image of the third is no longer on disk.
\<close>

definition sample_pothole :: "oid \<Rightarrow> real \<Rightarrow> string \<Rightarrow> string \<Rightarrow> date \<Rightarrow> date \<Rightarrow> pothole" where
  "sample_pothole i x img st tc tu =
     \<lparr>id_p = i, distance = Finite x, image_p = img,
      gps = \<lparr>longitude = Finite 72, latitude = Finite 23\<rparr>,
      vehicle_name = ''van'', vehicle_ground_level = Finite 20,
      pothole_status = st, reportedBy = 7, createdAt = tc, updatedAt = tu\<rparr>"

definition sample_world :: world where
  "sample_world =
     \<lparr>potholes =
        [sample_pothole 1 (12 / 10) ''/public/uploads/pothole-1000-1.jpg'' ''pending'' 1000 1000,
         sample_pothole 2 (34 / 10) ''/public/uploads/pothole-2000-2.jpg'' ''inprocess'' 2000 2500,
         sample_pothole 3 (9 / 10) ''/public/uploads/pothole-3000-3.jpg'' ''pending'' 3000 3001],
      users = (\<lambda>i. if i = 7
                 then Some \<lparr>reporter_id = 7, reporter_name = ''Asha'', reporter_email = ''asha@example.org''\<rparr>
                 else None),
      files = {''/public/uploads/pothole-1000-1.jpg'', ''/public/uploads/pothole-2000-2.jpg''},
      clock = 4000\<rparr>"

definition sample_request :: register_request where
  "sample_request =
     \<lparr>body_distance = Some ''1.2'', body_longitude = Some ''72.5'', body_latitude = Some ''23.0'',
      body_vehicle_name = Some ''van'', body_vehicle_ground_level = Some ''20'',
      file_filename = Some ''pothole-5000-5.jpg'', user_id = 7\<rparr>"

section \<open>Registrations that pass validation\<close>

text \<open>
  A submission that the route and the schema accept: it carries an image, each of its
  four numeric fields has a numeric prefix, and the name of the vehicle is present and
  not empty.
\<close>

definition valid_registration :: "register_request \<Rightarrow> bool" where
  "valid_registration req \<longleftrightarrow>
     file_filename req \<noteq> None \<and>
     parseFloat (body_distance req) \<noteq> NaN \<and>
     parseFloat (body_longitude req) \<noteq> NaN \<and>
     parseFloat (body_latitude req) \<noteq> NaN \<and>
     parseFloat (body_vehicle_ground_level req) \<noteq> NaN \<and>
     requiredString (body_vehicle_name req)"

section \<open>What a list query is over\<close>

text \<open>
  The stored reports that the status parameter \<open>st\<close> of a list query selects, as
  the database sorts them when it orders ties by \<open>tie\<close>. A page of the query is a
  slice of this list.
\<close>

definition listing :: "(pothole \<Rightarrow> nat) \<Rightarrow> string option \<Rightarrow> world \<Rightarrow> pothole list" where
  "listing tie st w = sort_createdAt_desc tie (filter (matches (build_query st)) (potholes w))"

section \<open>A collection with a tie\<close>

text \<open>
  Two reports registered within the same millisecond, so that they agree on
  \<open>createdAt\<close>, and an order of ties that puts the document with a given \<open>_id\<close>
  first.
\<close>

definition tied_world :: world where
  "tied_world =
     \<lparr>potholes =
        [sample_pothole 1 (12 / 10) ''/public/uploads/pothole-1000-1.jpg'' ''pending'' 1000 1000,
         sample_pothole 2 (34 / 10) ''/public/uploads/pothole-1000-2.jpg'' ''pending'' 1000 1000],
      users = (\<lambda>i. None),
      files = {''/public/uploads/pothole-1000-1.jpg'', ''/public/uploads/pothole-1000-2.jpg''},
      clock = 1000\<rparr>"

definition rank_first :: "oid \<Rightarrow> pothole \<Rightarrow> nat" where
  "rank_first i p = (if id_p p = i then 0 else 1)"

text \<open>The order of ties that leaves such documents in their natural order.\<close>

definition natural_order :: "pothole \<Rightarrow> nat" where
  "natural_order p = 0"

section \<open>Facts about the list operations\<close>

lemma find_update_first_other:
  assumes "\<And>x. g (f x) = g x" and "j \<noteq> i"
  shows "find (\<lambda>x. g x = j) (update_first (\<lambda>x. g x = i) f xs) = find (\<lambda>x. g x = j) xs"
  using assms by (induction xs) auto

lemma find_update_first_same:
  assumes "\<And>x. g (f x) = g x" and "find (\<lambda>x. g x = i) xs = Some p"
  shows "find (\<lambda>x. g x = i) (update_first (\<lambda>x. g x = i) f xs) = Some (f p)"
  using assms by (induction xs) (auto split: if_splits)

lemma map_update_first:
  assumes "\<And>x. g (f x) = g x"
  shows "map g (update_first P f xs) = map g xs"
  using assms by (induction xs) auto

lemma length_update_first: "length (update_first P f xs) = length xs"
  by (induction xs) auto

lemma set_update_first: "set (update_first P f xs) \<subseteq> set xs \<union> f ` set xs"
  by (induction xs) auto

lemma set_delete_first: "set (delete_first P xs) \<subseteq> set xs"
  by (induction xs) auto

lemma distinct_map_delete_first:
  "distinct (map g xs) \<Longrightarrow> distinct (map g (delete_first P xs))"
proof (induction xs)
  case Nil
  then show ?case by simp
next
  case (Cons x xs)
  have "g ` set (delete_first P xs) \<subseteq> g ` set xs"
    using set_delete_first [of P xs] by blast
  with Cons show ?case by auto
qed

lemma find_delete_first:
  assumes "distinct (map g xs)"
  shows "find (\<lambda>x. g x = i) (delete_first (\<lambda>x. g x = i) xs) = None"
  using assms
proof (induction xs)
  case Nil
  then show ?case by simp
next
  case (Cons x xs)
  show ?case
  proof (cases "g x = i")
    case True
    with Cons.prems have "\<forall>y \<in> set xs. g y \<noteq> i" by (auto simp: image_iff)
    with True show ?thesis by (simp add: find_None_iff)
  next
    case False
    with Cons show ?thesis by simp
  qed
qed

lemma find_delete_first_other:
  assumes "j \<noteq> i"
  shows "find (\<lambda>x. g x = j) (delete_first (\<lambda>x. g x = i) xs) = find (\<lambda>x. g x = j) xs"
  using assms by (induction xs) auto

lemma find_in_set: "find P xs = Some x \<Longrightarrow> x \<in> set xs \<and> P x"
  by (auto simp: find_Some_iff)

section \<open>The status update, case by case\<close>

lemma allowed_status_Some:
  "allowed_status v = Some s \<longleftrightarrow>
     v = Some (JString s) \<and> s \<in> {''pending'', ''inprocess'', ''completed''}"
  by (auto simp: allowed_status_def split: option.splits json.splits if_splits)

lemma allowed_status_None:
  "allowed_status v = None \<longleftrightarrow>
     v \<notin> {Some (JString ''pending''), Some (JString ''inprocess''), Some (JString ''completed'')}"
  by (auto simp: allowed_status_def split: option.splits json.splits if_splits)

lemma route_update_invalid:
  "allowed_status v = None \<Longrightarrow>
     route_update d idp v w = (Inl (BadRequest ''Invalid status value''), w)"
  by (simp add: route_update_def)

lemma route_update_found:
  assumes "allowed_status v = Some s" and "find (\<lambda>p. id_p p = i) (potholes w) = Some p"
  shows "route_update d (ObjectId i) v w =
           (Inr (p\<lparr>pothole_status := s, updatedAt := clock w + d\<rparr>),
            w\<lparr>clock := clock w + d,
              potholes := update_first (\<lambda>p. id_p p = i)
                 (\<lambda>p. p\<lparr>pothole_status := s, updatedAt := clock w + d\<rparr>) (potholes w)\<rparr>)"
proof -
  from assms(1) have "s \<in> set status_enum"
    by (auto simp: allowed_status_Some status_enum_def)
  with assms show ?thesis
    by (simp add: route_update_def Date_now_def Pothole_findByIdAndUpdate_def)
qed

lemma route_update_cases:
  "route_update d idp v w = (r, w') \<Longrightarrow>
     (allowed_status v = None \<and> r = Inl (BadRequest ''Invalid status value'') \<and> w' = w) \<or>
     (\<exists>s. allowed_status v = Some s \<and>
        ((\<exists>x. idp = NotAnObjectId x \<and> r = Inl (ServerError (CastError ''_id'')) \<and> w' = w\<lparr>clock := clock w + d\<rparr>) \<or>
         (\<exists>i. idp = ObjectId i \<and> find (\<lambda>p. id_p p = i) (potholes w) = None \<and>
               r = Inl (NotFound ''Pothole not found'') \<and> w' = w\<lparr>clock := clock w + d\<rparr>) \<or>
         (\<exists>i p. idp = ObjectId i \<and> find (\<lambda>p. id_p p = i) (potholes w) = Some p \<and>
               r = Inr (p\<lparr>pothole_status := s, updatedAt := clock w + d\<rparr>) \<and>
               w' = w\<lparr>clock := clock w + d,
                      potholes := update_first (\<lambda>p. id_p p = i)
                        (\<lambda>p. p\<lparr>pothole_status := s, updatedAt := clock w + d\<rparr>) (potholes w)\<rparr>)))"
  by (cases "allowed_status v"; cases idp)
     (auto simp: route_update_def Date_now_def Pothole_findByIdAndUpdate_def allowed_status_Some
        status_enum_def split: option.splits)

section \<open>The routes keep the invariant\<close>

lemma wf_empty_world: "wf empty_world"
  by (simp add: wf_def empty_world_def)

lemma wf_route_update:
  assumes "wf w"
  shows "wf (snd (route_update d idp v w))"
proof -
  obtain r w' where rw: "route_update d idp v w = (r, w')" by (cases "route_update d idp v w")
  have "wf w'"
    using route_update_cases [OF rw]
  proof (elim disjE exE conjE)
    assume "w' = w" with assms show ?thesis by simp
  next
    fix s x assume "w' = w\<lparr>clock := clock w + d\<rparr>"
    with assms show ?thesis by (auto simp: wf_def)
  next
    fix s i assume "w' = w\<lparr>clock := clock w + d\<rparr>"
    with assms show ?thesis by (auto simp: wf_def)
  next
    fix s i p
    assume s: "allowed_status v = Some s"
      and w': "w' = w\<lparr>clock := clock w + d,
                      potholes := update_first (\<lambda>p. id_p p = i)
                        (\<lambda>p. p\<lparr>pothole_status := s, updatedAt := clock w + d\<rparr>) (potholes w)\<rparr>"
    let ?f = "\<lambda>p. p\<lparr>pothole_status := s, updatedAt := clock w + d\<rparr>"
    from s have en: "s \<in> set status_enum" by (auto simp: allowed_status_Some status_enum_def)
    have ids: "map id_p (update_first (\<lambda>p. id_p p = i) ?f (potholes w)) = map id_p (potholes w)"
      by (rule map_update_first) simp
    have "\<forall>q \<in> set (update_first (\<lambda>p. id_p p = i) ?f (potholes w)).
            pothole_status q \<in> set status_enum \<and> createdAt q \<le> updatedAt q \<and> updatedAt q \<le> clock w + d"
    proof
      fix q assume "q \<in> set (update_first (\<lambda>p. id_p p = i) ?f (potholes w))"
      with set_update_first [of "\<lambda>p. id_p p = i" ?f "potholes w"]
      have "q \<in> set (potholes w) \<or> (\<exists>p \<in> set (potholes w). q = ?f p)" by auto
      with assms en show "pothole_status q \<in> set status_enum \<and> createdAt q \<le> updatedAt q \<and> updatedAt q \<le> clock w + d"
        by (fastforce simp: wf_def)
    qed
    with assms ids w' show ?thesis by (simp add: wf_def)
  qed
  with rw show ?thesis by simp
qed

lemma wf_route_delete:
  assumes "wf w"
  shows "wf (snd (route_delete idp w))"
proof (cases "Pothole_findById idp w")
  case (Inl e)
  with assms show ?thesis by (simp add: route_delete_def)
next
  case (Inr r)
  show ?thesis
  proof (cases r)
    case None
    with Inr assms show ?thesis by (simp add: route_delete_def)
  next
    case (Some p)
    have "set (delete_first (\<lambda>q. id_p q = id_p p) (potholes w)) \<subseteq> set (potholes w)"
      by (rule set_delete_first)
    moreover have "distinct (map id_p (delete_first (\<lambda>q. id_p q = id_p p) (potholes w)))"
      using assms by (simp add: wf_def distinct_map_delete_first)
    ultimately show ?thesis
      using assms Inr Some
      by (auto simp: route_delete_def deleteOne_def delete_image_def unlinkSync_def wf_def)
  qed
qed

lemma wf_route_register:
  assumes "wf w"
  shows "wf (snd (route_register new_id d1 d2 d3 req w))"
proof (cases "file_filename req")
  case None
  with assms show ?thesis by (simp add: route_register_def)
next
  case (Some fn)
  with assms show ?thesis
    by (auto simp: route_register_def Pothole_create_def Date_now_def pre_save_def new_Pothole_def
        wf_def status_enum_def)
qed

section \<open>Status update: validation\<close>

text \<open>
  C1. On a report that exists, the status update succeeds exactly when the value
  sent is one of the strings \<open>pending\<close>, \<open>inprocess\<close>, \<open>completed\<close>. Any other value
  is answered with status 400 and the message \<open>Invalid status value\<close>, whatever the
  id and whatever the collection holds: the check comes before any access to the
  collection, and the world, with every stored record in it, is returned as it was.
\<close>

theorem update_status_validation:
  assumes "Pothole_findById (ObjectId i) w = Inr (Some p)"
  shows "((\<exists>p' w'. route_update d (ObjectId i) v w = (Inr p', w')) \<longleftrightarrow>
            v \<in> {Some (JString ''pending''), Some (JString ''inprocess''), Some (JString ''completed'')}) \<and>
         (v \<notin> {Some (JString ''pending''), Some (JString ''inprocess''), Some (JString ''completed'')} \<longrightarrow>
            (\<forall>idp w0. route_update d idp v w0 = (Inl (BadRequest ''Invalid status value''), w0)) \<and>
            http_status (BadRequest ''Invalid status value'') = 400)"
proof -
  from assms have f: "find (\<lambda>p. id_p p = i) (potholes w) = Some p"
    by (simp add: Pothole_findById_def)
  show ?thesis
  proof (cases "allowed_status v")
    case None
    then show ?thesis
      using route_update_invalid [OF None] by (simp add: allowed_status_None http_status_def)
  next
    case (Some s)
    then have "v \<in> {Some (JString ''pending''), Some (JString ''inprocess''), Some (JString ''completed'')}"
      by (auto simp: allowed_status_Some)
    then show ?thesis
      using route_update_found [OF Some f] by simp
  qed
qed

theorem update_status_validation_witness:
  "Pothole_findById (ObjectId 2) sample_world =
     Inr (Some (sample_pothole 2 (34 / 10) ''/public/uploads/pothole-2000-2.jpg'' ''inprocess'' 2000 2500)) \<and>
   (\<exists>p' w'. route_update 5 (ObjectId 2) (Some (JString ''completed'')) sample_world = (Inr p', w')) \<and>
   route_update 5 (ObjectId 2) (Some (JString ''archived'')) sample_world =
     (Inl (BadRequest ''Invalid status value''), sample_world)"
proof -
  have h: "Pothole_findById (ObjectId 2) sample_world =
     Inr (Some (sample_pothole 2 (34 / 10) ''/public/uploads/pothole-2000-2.jpg'' ''inprocess'' 2000 2500))"
    by (simp add: Pothole_findById_def sample_world_def sample_pothole_def)
  have a: "\<exists>p' w'. route_update 5 (ObjectId 2) (Some (JString ''completed'')) sample_world = (Inr p', w')"
    using update_status_validation [OF h, of 5 "Some (JString ''completed'')"] by simp
  have b: "route_update 5 (ObjectId 2) (Some (JString ''archived'')) sample_world =
     (Inl (BadRequest ''Invalid status value''), sample_world)"
    using update_status_validation [OF h, of 5 "Some (JString ''archived'')"] by simp
  from h a b show ?thesis by simp
qed

section \<open>Registration\<close>

lemmas parse_defs = parseFloat_def parseFloat_str_def parseUnsigned_def parseExponent_def
  skipWhiteSpace.simps whiteSpaceLength_def isDigit_def digitsValue_def scale10_def

lemma Pothole_create_valid:
  assumes "invalid_paths inp = []" and "new_id \<notin> set (map id_p (potholes w))"
  shows "Pothole_create new_id d1 d2 d3 inp w =
           (Inr (new_Pothole new_id (clock w + d1) (clock w + d1 + d2 + d3) inp),
            w\<lparr>clock := clock w + d1 + d2 + d3,
              potholes := potholes w @ [new_Pothole new_id (clock w + d1) (clock w + d1 + d2 + d3) inp]\<rparr>)"
  using assms by (simp add: Pothole_create_def Date_now_def pre_save_def new_Pothole_def)

lemma Pothole_create_invalid:
  assumes "invalid_paths inp \<noteq> []"
  shows "Pothole_create new_id d1 d2 d3 inp w =
           (Inl (MongooseValidationError (invalid_paths inp)), w\<lparr>clock := clock w + d1 + d2\<rparr>)"
  using assms by (simp add: Pothole_create_def Date_now_def)

lemma invalid_paths_Nil:
  "invalid_paths inp = [] \<longleftrightarrow>
     distance_in inp \<noteq> NaN \<and> image_in inp \<noteq> [] \<and> longitude_in inp \<noteq> NaN \<and> latitude_in inp \<noteq> NaN \<and>
     requiredString (vehicle_name_in inp) \<and> vehicle_ground_level_in inp \<noteq> NaN"
  by (auto simp: invalid_paths_def castNumber_def requiredString_def)

text \<open>
  C2. A registration request without an image part is answered with status 400 and
  the message \<open>Image is required\<close>. The world is returned as it was: no document is
  created, and the collection has as many documents as before.
\<close>

theorem register_without_image:
  assumes "file_filename req = None"
  shows "route_register new_id d1 d2 d3 req w = (Inl (BadRequest ''Image is required''), w) \<and>
         http_status (BadRequest ''Image is required'') = 400 \<and>
         length (potholes (snd (route_register new_id d1 d2 d3 req w))) = length (potholes w)"
  using assms by (simp add: route_register_def http_status_def)

theorem register_without_image_witness:
  "file_filename (sample_request\<lparr>file_filename := None\<rparr>) = None \<and>
   route_register 5 1 0 2 (sample_request\<lparr>file_filename := None\<rparr>) sample_world =
     (Inl (BadRequest ''Image is required''), sample_world) \<and>
   length (potholes (snd (route_register 5 1 0 2 (sample_request\<lparr>file_filename := None\<rparr>) sample_world))) = 3"
proof -
  have h: "file_filename (sample_request\<lparr>file_filename := None\<rparr>) = None" by simp
  have n: "length (potholes sample_world) = 3" by (simp add: sample_world_def)
  from register_without_image [OF h, of 5 1 0 2 sample_world] h n show ?thesis by simp
qed

text \<open>
  C3, as the code has it. A valid registration under a fresh \<open>_id\<close> succeeds; the
  record it returns is the one stored, its status is \<open>pending\<close>, and its
  \<open>createdAt\<close> is not later than its \<open>updatedAt\<close>. The two are read from the clock
  at different moments (\<open>createdAt\<close> when the document is built, \<open>updatedAt\<close> in the
  save hook), so they are equal exactly when no time passes in between.
\<close>

theorem register_pending_timestamps:
  assumes "valid_registration req" and "new_id \<notin> set (map id_p (potholes w))"
  shows "\<exists>p w'. route_register new_id d1 d2 d3 req w = (Inr p, w') \<and>
           potholes w' = potholes w @ [p] \<and>
           pothole_status p = ''pending'' \<and>
           createdAt p = clock w + d1 \<and>
           updatedAt p = createdAt p + d2 + d3 \<and>
           createdAt p \<le> updatedAt p \<and>
           (createdAt p = updatedAt p \<longleftrightarrow> d2 + d3 = 0)"
proof -
  from assms(1) obtain fn where fn: "file_filename req = Some fn"
    by (auto simp: valid_registration_def)
  from assms(1) have "invalid_paths (register_fields req fn) = []"
    by (simp add: invalid_paths_Nil register_fields_def valid_registration_def requiredString_def)
  from Pothole_create_valid [OF this assms(2)] fn show ?thesis
    by (simp add: route_register_def new_Pothole_def)
qed

theorem register_pending_timestamps_witness:
  "valid_registration sample_request \<and> 6 \<notin> set (map id_p (potholes sample_world)) \<and>
   (\<exists>p w'. route_register 6 3 0 0 sample_request sample_world = (Inr p, w') \<and>
      pothole_status p = ''pending'' \<and> createdAt p = 4003 \<and> updatedAt p = 4003)"
proof -
  have v: "valid_registration sample_request"
    by (simp add: valid_registration_def sample_request_def parse_defs requiredString_def)
  have f: "6 \<notin> set (map id_p (potholes sample_world))"
    by (simp add: sample_world_def sample_pothole_def)
  have c: "clock sample_world = 4000" by (simp add: sample_world_def)
  from register_pending_timestamps [OF v f, of 3 0 0] obtain p w' where
    r: "route_register 6 3 0 0 sample_request sample_world = (Inr p, w')"
    and s: "pothole_status p = ''pending''"
    and t: "createdAt p = clock sample_world + 3" "updatedAt p = createdAt p + 0 + 0"
    by blast
  from t c have "createdAt p = 4003" "updatedAt p = 4003" by simp_all
  with r s have "\<exists>p w'. route_register 6 3 0 0 sample_request sample_world = (Inr p, w') \<and>
      pothole_status p = ''pending'' \<and> createdAt p = 4003 \<and> updatedAt p = 4003"
    by blast
  with v f show ?thesis by blast
qed

text \<open>
  The claim as the specification states it asks for \<open>createdAt = updatedAt\<close>. This
  valid registration, during which two milliseconds pass before the save hook runs,
  returns a record with \<open>createdAt = 4001\<close> and \<open>updatedAt = 4003\<close>.
\<close>

theorem register_timestamps_differ:
  "fst (route_register 5 1 0 2 sample_request sample_world) =
     Inr \<lparr>id_p = 5, distance = Finite (6 / 5), image_p = ''/public/uploads/pothole-5000-5.jpg'',
          gps = \<lparr>longitude = Finite (145 / 2), latitude = Finite 23\<rparr>,
          vehicle_name = ''van'', vehicle_ground_level = Finite 20,
          pothole_status = ''pending'', reportedBy = 7, createdAt = 4001, updatedAt = 4003\<rparr>"
  by (simp add: route_register_def register_fields_def Pothole_create_def Date_now_def pre_save_def
      new_Pothole_def invalid_paths_def castNumber_def requiredString_def
      sample_request_def sample_world_def sample_pothole_def parse_defs)

text \<open>
  C9, as the code has it. When a registration carries an image and one of its numeric
  fields has no numeric prefix, \<open>parseFloat\<close> does not fail and yields \<open>NaN\<close>; the
  schema's \<open>Number\<close> type refuses \<open>NaN\<close>, so \<open>Pothole.create\<close> is rejected with a
  validation error that names the field. The route answers with status 500, and no
  document is stored.
\<close>

theorem register_unparsable_number:
  assumes "file_filename req = Some fn"
    and "parseFloat (body_distance req) = NaN \<or> parseFloat (body_longitude req) = NaN \<or>
         parseFloat (body_latitude req) = NaN \<or> parseFloat (body_vehicle_ground_level req) = NaN"
  shows "invalid_paths (register_fields req fn) \<noteq> [] \<and>
         route_register new_id d1 d2 d3 req w =
           (Inl (ServerError (MongooseValidationError (invalid_paths (register_fields req fn)))),
            w\<lparr>clock := clock w + d1 + d2\<rparr>) \<and>
         http_status (ServerError (MongooseValidationError (invalid_paths (register_fields req fn)))) = 500 \<and>
         potholes (snd (route_register new_id d1 d2 d3 req w)) = potholes w"
proof -
  from assms(2) have inv: "invalid_paths (register_fields req fn) \<noteq> []"
    by (auto simp: invalid_paths_Nil register_fields_def)
  from Pothole_create_invalid [OF inv] assms(1) inv show ?thesis
    by (simp add: route_register_def http_status_def)
qed

theorem register_unparsable_number_witness:
  "file_filename (sample_request\<lparr>body_latitude := None\<rparr>) = Some ''pothole-5000-5.jpg'' \<and>
   parseFloat (body_latitude (sample_request\<lparr>body_latitude := None\<rparr>)) = NaN \<and>
   route_register 6 1 1 1 (sample_request\<lparr>body_latitude := None\<rparr>) sample_world =
     (Inl (ServerError (MongooseValidationError [''gps.latitude''])), sample_world\<lparr>clock := 4002\<rparr>) \<and>
   potholes (snd (route_register 6 1 1 1 (sample_request\<lparr>body_latitude := None\<rparr>) sample_world)) =
     potholes sample_world"
proof -
  let ?req = "sample_request\<lparr>body_latitude := None\<rparr>"
  have f: "file_filename ?req = Some ''pothole-5000-5.jpg''"
    by (simp add: sample_request_def)
  have n: "parseFloat (body_latitude ?req) = NaN"
    by (simp add: parse_defs)
  have p: "invalid_paths (register_fields ?req ''pothole-5000-5.jpg'') = [''gps.latitude'']"
    by (simp add: invalid_paths_def register_fields_def castNumber_def requiredString_def
        sample_request_def parse_defs)
  have c: "clock sample_world + 1 + 1 = 4002" by (simp add: sample_world_def)
  from register_unparsable_number [OF f, of 6 1 1 1 sample_world] n p c f show ?thesis
    by simp
qed

text \<open>
  The claim as the specification states it has the registration succeed and store
  \<open>NaN\<close>. This registration, whose distance is \<open>abc\<close>, fails and stores nothing.
\<close>

theorem register_unparsable_distance_fails:
  "route_register 5 1 0 2 (sample_request\<lparr>body_distance := Some ''abc''\<rparr>) sample_world =
     (Inl (ServerError (MongooseValidationError [''distance''])), sample_world\<lparr>clock := 4001\<rparr>)"
  by (simp add: route_register_def register_fields_def Pothole_create_def Date_now_def
      invalid_paths_def castNumber_def requiredString_def
      sample_request_def sample_world_def parse_defs)

section \<open>Status update: what it changes\<close>

text \<open>
  C7. A status update that succeeds is an update of a stored record by a string
  status: the record returned, which is the record stored under the id afterwards, is
  the old one with \<open>pothole_status\<close> and \<open>updatedAt\<close> set and every other field
  (\<open>_id\<close>, \<open>createdAt\<close>, \<open>image\<close>, \<open>reportedBy\<close>, \<open>gps\<close>, \<open>distance\<close>,
  \<open>vehicle_name\<close>, \<open>vehicle_ground_level\<close>) as it was. In a world that satisfies the
  invariant, \<open>updatedAt\<close> does not decrease. The records under other ids, the
  files and the users stay as they were.
\<close>

theorem update_status_frame:
  assumes "wf w" and "route_update d idp v w = (Inr p', w')"
  shows "\<exists>i s p. idp = ObjectId i \<and> v = Some (JString s) \<and>
           Pothole_findById idp w = Inr (Some p) \<and>
           p' = p\<lparr>pothole_status := s, updatedAt := clock w + d\<rparr> \<and>
           id_p p' = id_p p \<and> createdAt p' = createdAt p \<and> image_p p' = image_p p \<and>
           reportedBy p' = reportedBy p \<and> gps p' = gps p \<and> distance p' = distance p \<and>
           vehicle_name p' = vehicle_name p \<and> vehicle_ground_level p' = vehicle_ground_level p \<and>
           updatedAt p \<le> updatedAt p' \<and>
           Pothole_findById idp w' = Inr (Some p') \<and>
           (\<forall>j. j \<noteq> i \<longrightarrow> Pothole_findById (ObjectId j) w' = Pothole_findById (ObjectId j) w) \<and>
           map id_p (potholes w') = map id_p (potholes w) \<and>
           files w' = files w \<and> users w' = users w"
proof -
  from route_update_cases [OF assms(2)] obtain s i p where
    s: "allowed_status v = Some s" and idp: "idp = ObjectId i"
    and f: "find (\<lambda>p. id_p p = i) (potholes w) = Some p"
    and p': "p' = p\<lparr>pothole_status := s, updatedAt := clock w + d\<rparr>"
    and w': "w' = w\<lparr>clock := clock w + d,
                    potholes := update_first (\<lambda>p. id_p p = i)
                      (\<lambda>p. p\<lparr>pothole_status := s, updatedAt := clock w + d\<rparr>) (potholes w)\<rparr>"
    by auto
  let ?f = "\<lambda>p. p\<lparr>pothole_status := s, updatedAt := clock w + d\<rparr>"
  from s have v: "v = Some (JString s)" by (simp add: allowed_status_Some)
  from find_in_set [OF f] assms(1) have "updatedAt p \<le> clock w" by (simp add: wf_def)
  then have le: "updatedAt p \<le> updatedAt p'" by (simp add: p')
  have same: "find (\<lambda>p. id_p p = i) (update_first (\<lambda>p. id_p p = i) ?f (potholes w)) = Some (?f p)"
    by (rule find_update_first_same [OF _ f]) simp
  have other: "\<And>j. j \<noteq> i \<Longrightarrow>
      find (\<lambda>p. id_p p = j) (update_first (\<lambda>p. id_p p = i) ?f (potholes w)) =
      find (\<lambda>p. id_p p = j) (potholes w)"
    by (rule find_update_first_other) simp_all
  have ids: "map id_p (update_first (\<lambda>p. id_p p = i) ?f (potholes w)) = map id_p (potholes w)"
    by (rule map_update_first) simp
  have 1: "Pothole_findById idp w = Inr (Some p)"
    using f idp by (simp add: Pothole_findById_def)
  have 2: "Pothole_findById idp w' = Inr (Some p')"
    using same idp p' w' by (simp add: Pothole_findById_def)
  have 3: "\<forall>j. j \<noteq> i \<longrightarrow> Pothole_findById (ObjectId j) w' = Pothole_findById (ObjectId j) w"
    using other w' by (simp add: Pothole_findById_def)
  have 4: "map id_p (potholes w') = map id_p (potholes w)" "files w' = files w" "users w' = users w"
    using ids w' by simp_all
  have 5: "id_p p' = id_p p \<and> createdAt p' = createdAt p \<and> image_p p' = image_p p \<and>
           reportedBy p' = reportedBy p \<and> gps p' = gps p \<and> distance p' = distance p \<and>
           vehicle_name p' = vehicle_name p \<and> vehicle_ground_level p' = vehicle_ground_level p"
    by (simp add: p')
  from idp v 1 p' 5 le 2 3 4 show ?thesis by blast
qed

theorem update_status_frame_witness:
  "wf sample_world \<and>
   route_update 5 (ObjectId 2) (Some (JString ''completed'')) sample_world =
     (Inr (sample_pothole 2 (34 / 10) ''/public/uploads/pothole-2000-2.jpg'' ''completed'' 2000 4005),
      sample_world\<lparr>clock := 4005, potholes :=
        [sample_pothole 1 (12 / 10) ''/public/uploads/pothole-1000-1.jpg'' ''pending'' 1000 1000,
         sample_pothole 2 (34 / 10) ''/public/uploads/pothole-2000-2.jpg'' ''completed'' 2000 4005,
         sample_pothole 3 (9 / 10) ''/public/uploads/pothole-3000-3.jpg'' ''pending'' 3000 3001]\<rparr>) \<and>
   (\<exists>p. Pothole_findById (ObjectId 2) sample_world = Inr (Some p) \<and> updatedAt p \<le> 4005 \<and> createdAt p = 2000)"
proof -
  have w: "wf sample_world"
    by (simp add: wf_def sample_world_def sample_pothole_def status_enum_def)
  have r: "route_update 5 (ObjectId 2) (Some (JString ''completed'')) sample_world =
     (Inr (sample_pothole 2 (34 / 10) ''/public/uploads/pothole-2000-2.jpg'' ''completed'' 2000 4005),
      sample_world\<lparr>clock := 4005, potholes :=
        [sample_pothole 1 (12 / 10) ''/public/uploads/pothole-1000-1.jpg'' ''pending'' 1000 1000,
         sample_pothole 2 (34 / 10) ''/public/uploads/pothole-2000-2.jpg'' ''completed'' 2000 4005,
         sample_pothole 3 (9 / 10) ''/public/uploads/pothole-3000-3.jpg'' ''pending'' 3000 3001]\<rparr>)"
    by (simp add: route_update_def allowed_status_def Date_now_def Pothole_findByIdAndUpdate_def
        status_enum_def sample_world_def sample_pothole_def)
  from update_status_frame [OF w r] obtain p where
    "Pothole_findById (ObjectId 2) sample_world = Inr (Some p)"
    "updatedAt p \<le> updatedAt (sample_pothole 2 (34 / 10) ''/public/uploads/pothole-2000-2.jpg'' ''completed'' 2000 4005)"
    "createdAt (sample_pothole 2 (34 / 10) ''/public/uploads/pothole-2000-2.jpg'' ''completed'' 2000 4005) = createdAt p"
    by auto
  then have "\<exists>p. Pothole_findById (ObjectId 2) sample_world = Inr (Some p) \<and> updatedAt p \<le> 4005 \<and> createdAt p = 2000"
    by (auto simp: sample_pothole_def)
  with w r show ?thesis by blast
qed

section \<open>Removal\<close>

text \<open>
  C5, as the code has it. A removal whose id parameter is no \<open>ObjectId\<close> at all is
  rejected by the lookup with a cast error: the route answers with status 500 and
  leaves the world as it was. A removal by an \<open>ObjectId\<close> that no report has is
  answered with status 404 and leaves the world as it was. A removal of a report \<open>p\<close>
  that exists succeeds: first the image file named by the record is deleted when it
  exists, then the record. Afterwards the file is gone, the record is gone from the
  collection, and nothing else has changed: the reports under other ids are as they
  were. When the image file is absent already, the call succeeds all the same and
  deletes the record.
\<close>

theorem remove_report:
  "route_delete (NotAnObjectId s) w = (Inl (ServerError (CastError ''_id'')), w) \<and>
   http_status (ServerError (CastError ''_id'')) = 500 \<and>
   (Pothole_findById (ObjectId i) w = Inr None \<longrightarrow>
      route_delete (ObjectId i) w = (Inl (NotFound ''Pothole not found''), w) \<and>
      http_status (NotFound ''Pothole not found'') = 404) \<and>
   (\<forall>p. Pothole_findById (ObjectId i) w = Inr (Some p) \<longrightarrow>
      route_delete (ObjectId i) w = (Inr (), deleteOne p (delete_image p w)) \<and>
      snd (route_delete (ObjectId i) w) =
        w\<lparr>files := files w - {image_p p},
          potholes := delete_first (\<lambda>q. id_p q = i) (potholes w)\<rparr> \<and>
      (image_p p \<notin> files w \<longrightarrow> route_delete (ObjectId i) w = (Inr (), deleteOne p w)) \<and>
      (distinct (map id_p (potholes w)) \<longrightarrow>
         Pothole_findById (ObjectId i) (snd (route_delete (ObjectId i) w)) = Inr None) \<and>
      (\<forall>j. j \<noteq> i \<longrightarrow>
         Pothole_findById (ObjectId j) (snd (route_delete (ObjectId i) w)) =
         Pothole_findById (ObjectId j) w))"
proof (intro conjI allI impI)
  show "route_delete (NotAnObjectId s) w = (Inl (ServerError (CastError ''_id'')), w)"
    by (simp add: route_delete_def Pothole_findById_def)
next
  show "http_status (ServerError (CastError ''_id'')) = 500" by (simp add: http_status_def)
next
  assume "Pothole_findById (ObjectId i) w = Inr None"
  then show "route_delete (ObjectId i) w = (Inl (NotFound ''Pothole not found''), w)"
    by (simp add: route_delete_def)
next
  show "http_status (NotFound ''Pothole not found'') = 404" by (simp add: http_status_def)
next
  fix p assume h: "Pothole_findById (ObjectId i) w = Inr (Some p)"
  then have "find (\<lambda>q. id_p q = i) (potholes w) = Some p" by (simp add: Pothole_findById_def)
  from find_in_set [OF this] have i: "id_p p = i" by simp
  from h show r: "route_delete (ObjectId i) w = (Inr (), deleteOne p (delete_image p w))"
    by (simp add: route_delete_def)
  have "files w - {image_p p} = files w" if "image_p p \<notin> files w"
    using that by auto
  then show s: "snd (route_delete (ObjectId i) w) =
        w\<lparr>files := files w - {image_p p},
          potholes := delete_first (\<lambda>q. id_p q = i) (potholes w)\<rparr>"
    by (simp add: r i deleteOne_def delete_image_def existsSync_def unlinkSync_def imagePath_def)
  {
    assume "image_p p \<notin> files w"
    then show "route_delete (ObjectId i) w = (Inr (), deleteOne p w)"
      by (simp add: r delete_image_def existsSync_def imagePath_def)
  }
  {
    assume "distinct (map id_p (potholes w))"
    from find_delete_first [OF this, of i]
    show "Pothole_findById (ObjectId i) (snd (route_delete (ObjectId i) w)) = Inr None"
      by (simp add: Pothole_findById_def s)
  }
  {
    fix j assume "j \<noteq> i"
    from find_delete_first_other [OF this, of id_p "potholes w"]
    show "Pothole_findById (ObjectId j) (snd (route_delete (ObjectId i) w)) =
          Pothole_findById (ObjectId j) w"
      by (simp add: Pothole_findById_def s)
  }
qed

theorem remove_report_witness:
  "Pothole_findById (ObjectId 9) sample_world = Inr None \<and>
   route_delete (ObjectId 9) sample_world = (Inl (NotFound ''Pothole not found''), sample_world) \<and>
   Pothole_findById (ObjectId 3) sample_world =
     Inr (Some (sample_pothole 3 (9 / 10) ''/public/uploads/pothole-3000-3.jpg'' ''pending'' 3000 3001)) \<and>
   ''/public/uploads/pothole-3000-3.jpg'' \<notin> files sample_world \<and>
   distinct (map id_p (potholes sample_world)) \<and>
   fst (route_delete (ObjectId 3) sample_world) = Inr () \<and>
   Pothole_findById (ObjectId 3) (snd (route_delete (ObjectId 3) sample_world)) = Inr None \<and>
   Pothole_findById (ObjectId 2) (snd (route_delete (ObjectId 3) sample_world)) =
     Pothole_findById (ObjectId 2) sample_world \<and>
   Pothole_findById (ObjectId 1) sample_world =
     Inr (Some (sample_pothole 1 (12 / 10) ''/public/uploads/pothole-1000-1.jpg'' ''pending'' 1000 1000)) \<and>
   files (snd (route_delete (ObjectId 1) sample_world)) = {''/public/uploads/pothole-2000-2.jpg''}"
proof -
  have a: "Pothole_findById (ObjectId 9) sample_world = Inr None"
    by (simp add: Pothole_findById_def sample_world_def sample_pothole_def)
  have b: "Pothole_findById (ObjectId 3) sample_world =
     Inr (Some (sample_pothole 3 (9 / 10) ''/public/uploads/pothole-3000-3.jpg'' ''pending'' 3000 3001))"
    by (simp add: Pothole_findById_def sample_world_def sample_pothole_def)
  have c: "image_p (sample_pothole 3 (9 / 10) ''/public/uploads/pothole-3000-3.jpg'' ''pending'' 3000 3001)
             \<notin> files sample_world"
    by (simp add: sample_world_def sample_pothole_def)
  have d: "distinct (map id_p (potholes sample_world))"
    by (simp add: sample_world_def sample_pothole_def)
  have e: "Pothole_findById (ObjectId 1) sample_world =
     Inr (Some (sample_pothole 1 (12 / 10) ''/public/uploads/pothole-1000-1.jpg'' ''pending'' 1000 1000))"
    by (simp add: Pothole_findById_def sample_world_def sample_pothole_def)
  have f: "files sample_world - {image_p (sample_pothole 1 (12 / 10) ''/public/uploads/pothole-1000-1.jpg'' ''pending'' 1000 1000)}
             = {''/public/uploads/pothole-2000-2.jpg''}"
    by (auto simp: sample_world_def sample_pothole_def)
  have c': "''/public/uploads/pothole-3000-3.jpg'' \<notin> files sample_world"
    using c by (simp add: sample_pothole_def)
  have n: "(2::nat) \<noteq> 3" by simp
  from remove_report [of _ sample_world 9] a
  have 1: "route_delete (ObjectId 9) sample_world = (Inl (NotFound ''Pothole not found''), sample_world)"
    by blast
  from remove_report [of _ sample_world 3] b c
  have "route_delete (ObjectId 3) sample_world =
          (Inr (), deleteOne (sample_pothole 3 (9 / 10) ''/public/uploads/pothole-3000-3.jpg'' ''pending'' 3000 3001)
             sample_world)"
    by blast
  then have 2: "fst (route_delete (ObjectId 3) sample_world) = Inr ()"
    by simp
  from remove_report [of _ sample_world 3] b d
  have 3: "Pothole_findById (ObjectId 3) (snd (route_delete (ObjectId 3) sample_world)) = Inr None"
    by blast
  from remove_report [of _ sample_world 3] b n
  have 5: "Pothole_findById (ObjectId 2) (snd (route_delete (ObjectId 3) sample_world)) =
     Pothole_findById (ObjectId 2) sample_world"
    by blast
  from remove_report [of _ sample_world 1] e
  have "snd (route_delete (ObjectId 1) sample_world) =
          sample_world\<lparr>files := files sample_world -
              {image_p (sample_pothole 1 (12 / 10) ''/public/uploads/pothole-1000-1.jpg'' ''pending'' 1000 1000)},
            potholes := delete_first (\<lambda>q. id_p q = 1) (potholes sample_world)\<rparr>"
    by blast
  with f have 4: "files (snd (route_delete (ObjectId 1) sample_world)) = {''/public/uploads/pothole-2000-2.jpg''}"
    by simp
  from a 1 b c' d 2 3 5 e 4 show ?thesis by blast
qed

text \<open>
  The claim as the specification states it has every removal by an id that no report
  has fail with \<open>NotFound\<close>. No report has the id \<open>abc\<close>, which is no \<open>ObjectId\<close>;
  the removal is answered with status 500, not 404.
\<close>

theorem remove_malformed_id_server_error:
  "Pothole_findById (NotAnObjectId ''abc'') sample_world = Inl (CastError ''_id'') \<and>
   route_delete (NotAnObjectId ''abc'') sample_world =
     (Inl (ServerError (CastError ''_id'')), sample_world) \<and>
   http_status (ServerError (CastError ''_id'')) = 500"
  by (simp add: Pothole_findById_def route_delete_def http_status_def)

section \<open>Ids that no report has\<close>

text \<open>
  C6, as the code has it. For an \<open>ObjectId\<close> that no stored report has, fetching and
  removal are answered with status 404 (\<open>Pothole not found\<close>); so is a status update
  whose status is one of the three allowed strings. For an id parameter that is no
  \<open>ObjectId\<close> at all, the same calls are rejected by the lookup with a cast error
  and answered with status 500. A status update with any other status is answered with
  status 400 (\<open>Invalid status value\<close>) whatever the id, since the route checks the
  status before it looks for the report. For an id of either kind that identifies no
  stored report none of the three routes reports success, and the collection is left
  as it was.
\<close>

theorem missing_id_fails:
  "(Pothole_findById (ObjectId i) w = Inr None \<longrightarrow>
      route_get (ObjectId i) w = Inl (NotFound ''Pothole not found'') \<and>
      route_delete (ObjectId i) w = (Inl (NotFound ''Pothole not found''), w) \<and>
      (allowed_status v \<noteq> None \<longrightarrow>
         route_update d (ObjectId i) v w =
           (Inl (NotFound ''Pothole not found''), w\<lparr>clock := clock w + d\<rparr>)) \<and>
      http_status (NotFound ''Pothole not found'') = 404) \<and>
   (route_get (NotAnObjectId s) w = Inl (ServerError (CastError ''_id'')) \<and>
    route_delete (NotAnObjectId s) w = (Inl (ServerError (CastError ''_id'')), w) \<and>
    (allowed_status v \<noteq> None \<longrightarrow>
       route_update d (NotAnObjectId s) v w =
         (Inl (ServerError (CastError ''_id'')), w\<lparr>clock := clock w + d\<rparr>)) \<and>
    http_status (ServerError (CastError ''_id'')) = 500) \<and>
   (allowed_status v = None \<longrightarrow>
      route_update d idp v w = (Inl (BadRequest ''Invalid status value''), w) \<and>
      http_status (BadRequest ''Invalid status value'') = 400) \<and>
   ((\<forall>p. Pothole_findById idp w \<noteq> Inr (Some p)) \<longrightarrow>
      isl (route_get idp w) \<and>
      isl (fst (route_delete idp w)) \<and>
      isl (fst (route_update d idp v w)) \<and>
      potholes (snd (route_delete idp w)) = potholes w \<and>
      potholes (snd (route_update d idp v w)) = potholes w)"
proof -
  have en: "x \<in> set status_enum" if "allowed_status v = Some x" for x
    using that by (auto simp: allowed_status_Some status_enum_def)
  have A: "route_get (ObjectId i) w = Inl (NotFound ''Pothole not found'') \<and>
      route_delete (ObjectId i) w = (Inl (NotFound ''Pothole not found''), w) \<and>
      (allowed_status v \<noteq> None \<longrightarrow>
         route_update d (ObjectId i) v w =
           (Inl (NotFound ''Pothole not found''), w\<lparr>clock := clock w + d\<rparr>)) \<and>
      http_status (NotFound ''Pothole not found'') = 404"
    if h: "Pothole_findById (ObjectId i) w = Inr None" for i
  proof -
    from h have f: "find (\<lambda>p. id_p p = i) (potholes w) = None"
      by (simp add: Pothole_findById_def)
    have "route_update d (ObjectId i) v w =
        (Inl (NotFound ''Pothole not found''), w\<lparr>clock := clock w + d\<rparr>)"
      if "allowed_status v = Some x" for x
      using that en [OF that] f
      by (simp add: route_update_def Date_now_def Pothole_findByIdAndUpdate_def)
    with h show ?thesis
      by (auto simp: route_get_def route_delete_def http_status_def)
  qed
  have B: "route_get (NotAnObjectId s) w = Inl (ServerError (CastError ''_id'')) \<and>
    route_delete (NotAnObjectId s) w = (Inl (ServerError (CastError ''_id'')), w) \<and>
    (allowed_status v \<noteq> None \<longrightarrow>
       route_update d (NotAnObjectId s) v w =
         (Inl (ServerError (CastError ''_id'')), w\<lparr>clock := clock w + d\<rparr>)) \<and>
    http_status (ServerError (CastError ''_id'')) = 500" for s
    by (auto simp: route_get_def route_delete_def route_update_def Pothole_findById_def
        Pothole_findByIdAndUpdate_def Date_now_def http_status_def)
  have C: "allowed_status v = None \<longrightarrow>
      route_update d idp v w = (Inl (BadRequest ''Invalid status value''), w) \<and>
      http_status (BadRequest ''Invalid status value'') = 400"
    by (simp add: route_update_invalid http_status_def)
  have D: "isl (route_get idp w) \<and>
      isl (fst (route_delete idp w)) \<and>
      isl (fst (route_update d idp v w)) \<and>
      potholes (snd (route_delete idp w)) = potholes w \<and>
      potholes (snd (route_update d idp v w)) = potholes w"
    if n: "\<forall>p. Pothole_findById idp w \<noteq> Inr (Some p)"
  proof (cases idp)
    case (ObjectId j)
    with n have "Pothole_findById (ObjectId j) w = Inr None"
      by (cases "find (\<lambda>p. id_p p = j) (potholes w)") (simp_all add: Pothole_findById_def)
    from A [OF this] C ObjectId show ?thesis
      by (cases "allowed_status v") auto
  next
    case (NotAnObjectId x)
    with B [of x] C show ?thesis
      by (cases "allowed_status v") auto
  qed
  from A [of i] B [of s] C D show ?thesis by blast
qed

theorem missing_id_fails_witness:
  "Pothole_findById (ObjectId 9) sample_world = Inr None \<and>
   route_get (ObjectId 9) sample_world = Inl (NotFound ''Pothole not found'') \<and>
   route_delete (ObjectId 9) sample_world = (Inl (NotFound ''Pothole not found''), sample_world) \<and>
   allowed_status (Some (JString ''completed'')) \<noteq> None \<and>
   route_update 5 (ObjectId 9) (Some (JString ''completed'')) sample_world =
     (Inl (NotFound ''Pothole not found''), sample_world\<lparr>clock := 4005\<rparr>) \<and>
   allowed_status (Some (JString ''archived'')) = None \<and>
   route_update 5 (ObjectId 9) (Some (JString ''archived'')) sample_world =
     (Inl (BadRequest ''Invalid status value''), sample_world)"
proof -
  have a: "Pothole_findById (ObjectId 9) sample_world = Inr None"
    by (simp add: Pothole_findById_def sample_world_def sample_pothole_def)
  have s: "allowed_status (Some (JString ''completed'')) \<noteq> None"
    by (simp add: allowed_status_def)
  have t: "allowed_status (Some (JString ''archived'')) = None"
    by (simp add: allowed_status_def)
  have c: "clock sample_world + 5 = 4005" by (simp add: sample_world_def)
  from missing_id_fails [of 9 sample_world "Some (JString ''completed'')" 5] a s
  have "route_get (ObjectId 9) sample_world = Inl (NotFound ''Pothole not found'')"
    and "route_delete (ObjectId 9) sample_world = (Inl (NotFound ''Pothole not found''), sample_world)"
    and "route_update 5 (ObjectId 9) (Some (JString ''completed'')) sample_world =
           (Inl (NotFound ''Pothole not found''), sample_world\<lparr>clock := clock sample_world + 5\<rparr>)"
    by blast+
  moreover from missing_id_fails [of 9 sample_world "Some (JString ''archived'')" 5 _ "ObjectId 9"] t
  have "route_update 5 (ObjectId 9) (Some (JString ''archived'')) sample_world =
     (Inl (BadRequest ''Invalid status value''), sample_world)"
    by blast
  ultimately show ?thesis using a s t c by simp
qed

text \<open>
  The claim as the specification states it has each of the three operations fail with
  \<open>NotFound\<close> on every id that identifies no stored report. No report has the id
  \<open>abc\<close>, which is no \<open>ObjectId\<close>; fetching it, and updating it to the allowed
  status \<open>completed\<close>, are answered with status 500, not 404.
\<close>

theorem malformed_id_server_error:
  "Pothole_findById (NotAnObjectId ''abc'') sample_world = Inl (CastError ''_id'') \<and>
   route_get (NotAnObjectId ''abc'') sample_world = Inl (ServerError (CastError ''_id'')) \<and>
   route_update 5 (NotAnObjectId ''abc'') (Some (JString ''completed'')) sample_world =
     (Inl (ServerError (CastError ''_id'')), sample_world\<lparr>clock := 4005\<rparr>) \<and>
   http_status (ServerError (CastError ''_id'')) = 500"
  by (simp add: Pothole_findById_def route_get_def route_update_def allowed_status_def
      Date_now_def Pothole_findByIdAndUpdate_def http_status_def sample_world_def)

section \<open>The list query, case by case\<close>

lemma concat_slices:
  "concat (map (\<lambda>k. take P (drop (k * P) xs)) [0..<n]) = take (n * P) xs"
proof (induction n)
  case 0
  then show ?case by simp
next
  case (Suc n)
  have "take (Suc n * P) xs = take (n * P + P) xs" by (simp add: add.commute)
  also have "\<dots> = take (n * P) xs @ take P (drop (n * P) xs)" by (rule take_add)
  finally show ?case using Suc by simp
qed

lemma concat_pages_from_one:
  "concat (map (\<lambda>k. take P (drop ((k - 1) * P) xs)) [1..<Suc n]) = take (n * P) xs"
proof -
  have "map (\<lambda>k. take P (drop ((k - 1) * P) xs)) [1..<Suc n] =
        map ((\<lambda>k. take P (drop ((k - 1) * P) xs)) \<circ> Suc) [0..<n]"
    using map_Suc_upt [of 0 n] by (simp only: One_nat_def flip: map_map)
  also have "\<dots> = map (\<lambda>k. take P (drop (k * P) xs)) [0..<n]" by (simp add: comp_def)
  finally show ?thesis by (simp only: concat_slices)
qed

lemma pages_cover:
  assumes "1 \<le> (P::int)"
  shows "N \<le> nat \<lceil>real N / real_of_int P\<rceil> * nat P"
proof -
  from assms have P: "0 < real_of_int P" by simp
  have "real N / real_of_int P \<le> of_int \<lceil>real N / real_of_int P\<rceil>" by (rule le_of_int_ceiling)
  then have "real N \<le> of_int \<lceil>real N / real_of_int P\<rceil> * real_of_int P"
    by (rule pos_divide_le_eq [OF P, THEN iffD1])
  then have "int N \<le> \<lceil>real N / real_of_int P\<rceil> * P"
    by (metis of_int_le_iff of_int_mult of_int_of_nat_eq)
  then have "nat (int N) \<le> nat (\<lceil>real N / real_of_int P\<rceil> * P)"
    by (rule nat_mono)
  moreover have "0 \<le> real N / real_of_int P"
    using P by simp
  then have "0 \<le> \<lceil>real N / real_of_int P\<rceil>"
    using ceiling_mono [of 0 "real N / real_of_int P"] by simp
  then have "nat (\<lceil>real N / real_of_int P\<rceil> * P) = nat \<lceil>real N / real_of_int P\<rceil> * nat P"
    by (rule nat_mult_distrib)
  ultimately show ?thesis by simp
qed

lemma sorted_sort_createdAt_desc:
  "sorted_wrt (\<lambda>a b. createdAt b \<le> createdAt a) (sort_createdAt_desc tie ps)"
proof -
  have "sorted (map (\<lambda>p. - int (createdAt p)) (sort_createdAt_desc tie ps))"
    by (simp add: sort_createdAt_desc_def)
  then show ?thesis by (simp add: sorted_map)
qed

lemma mset_sort_createdAt_desc: "mset (sort_createdAt_desc tie ps) = mset ps"
  by (simp add: sort_createdAt_desc_def)

text \<open>When no two documents agree on \<open>createdAt\<close>, the order of ties does not matter.\<close>

lemma sort_createdAt_desc_tie_irrelevant:
  assumes "distinct (map createdAt ps)"
  shows "sort_createdAt_desc tie ps = sort_createdAt_desc tie' ps"
proof -
  let ?k = "\<lambda>p. - int (createdAt p)"
  let ?A = "sort_createdAt_desc tie ps"
  let ?B = "sort_createdAt_desc tie' ps"
  have mA: "mset ?A = mset ps" and mB: "mset ?B = mset ps"
    by (simp_all add: mset_sort_createdAt_desc)
  then have sA: "set ?A = set ps" and sB: "set ?B = set ps"
    by (metis set_mset_mset)+
  have "map ?k ps = map (\<lambda>n. - int n) (map createdAt ps)" by simp
  moreover have "inj (\<lambda>n::nat. - int n)" by (simp add: inj_on_def)
  ultimately have dk: "distinct (map ?k ps)"
    using assms by (simp only: distinct_map) (auto simp: inj_on_def)
  then have inj: "inj_on ?k (set ps)" by (simp add: distinct_map)
  have "mset (map ?k ?A) = mset (map ?k ps)" "mset (map ?k ?B) = mset (map ?k ps)"
    using mA mB by simp_all
  then have dA: "distinct (map ?k ?A)" and dB: "distinct (map ?k ?B)"
    using dk by (metis mset_eq_imp_distinct_iff)+
  have oA: "sorted (map ?k ?A)" and oB: "sorted (map ?k ?B)"
    by (simp_all add: sort_createdAt_desc_def)
  have "set (map ?k ?A) = set (map ?k ?B)"
    using sA sB by simp
  with oA dA oB dB have "map ?k ?A = map ?k ?B"
    by (rule sorted_distinct_set_unique)
  moreover have "inj_on ?k (set ?A \<union> set ?B)"
    using inj sA sB by simp
  ultimately show ?thesis by (simp only: inj_on_map_eq_map)
qed

lemma sorted_listing: "sorted_wrt (\<lambda>a b. createdAt b \<le> createdAt a) (listing tie st w)"
  by (simp add: listing_def sorted_sort_createdAt_desc)

lemma mset_listing:
  "mset (listing tie st w) = filter_mset (matches (build_query st)) (mset (potholes w))"
  by (simp add: listing_def mset_sort_createdAt_desc)

lemma length_listing: "length (listing tie st w) = countDocuments (build_query st) w"
  by (simp add: listing_def sort_createdAt_desc_def countDocuments_def)

lemma listing_tie_irrelevant:
  assumes "distinct (map createdAt (filter (matches (build_query st)) (potholes w)))"
  shows "listing tie st w = listing tie' st w"
  unfolding listing_def using assms by (rule sort_createdAt_desc_tie_irrelevant)

lemma route_list_ok:
  assumes "0 \<le> (page_of req - 1) * limit_of req"
  shows "route_list tie req w =
     Inr \<lparr>data = map (populate_reportedBy w)
                  (skip_limit ((page_of req - 1) * limit_of req) (limit_of req)
                     (listing tie (status_q req) w)),
          totalPages = Math_ceil (js_div (int (countDocuments (build_query (status_q req)) w)) (limit_of req)),
          currentPage = page_of req,
          totalRecords = countDocuments (build_query (status_q req)) w\<rparr>"
  using assms by (simp add: route_list_def Pothole_find_def listing_def Let_def)

lemma route_list_negative_skip:
  assumes "(page_of req - 1) * limit_of req < 0"
  shows "route_list tie req w = Inl (ServerError (MongoServerError ''Skip value must be non-negative''))"
  using assms by (simp add: route_list_def Pothole_find_def Let_def)

lemma total_pages_positive:
  assumes "1 \<le> P"
  shows "Math_ceil (js_div (int N) P) = Finite (of_int \<lceil>real N / real_of_int P\<rceil>)"
  using assms by (simp add: Math_ceil_def js_div_def)

lemma listing_sample:
  "listing tie None sample_world =
     [sample_pothole 3 (9 / 10) ''/public/uploads/pothole-3000-3.jpg'' ''pending'' 3000 3001,
      sample_pothole 2 (34 / 10) ''/public/uploads/pothole-2000-2.jpg'' ''inprocess'' 2000 2500,
      sample_pothole 1 (12 / 10) ''/public/uploads/pothole-1000-1.jpg'' ''pending'' 1000 1000]"
proof -
  have "distinct (map createdAt (filter (matches (build_query None)) (potholes sample_world)))"
    by (simp add: build_query_def matches_def sample_world_def sample_pothole_def)
  then have "listing tie None sample_world = listing natural_order None sample_world"
    by (rule listing_tie_irrelevant)
  also have "\<dots> =
     [sample_pothole 3 (9 / 10) ''/public/uploads/pothole-3000-3.jpg'' ''pending'' 3000 3001,
      sample_pothole 2 (34 / 10) ''/public/uploads/pothole-2000-2.jpg'' ''inprocess'' 2000 2500,
      sample_pothole 1 (12 / 10) ''/public/uploads/pothole-1000-1.jpg'' ''pending'' 1000 1000]"
    by (simp add: listing_def build_query_def matches_def sort_createdAt_desc_def natural_order_def
        sample_world_def sample_pothole_def)
  finally show ?thesis .
qed




section \<open>Pagination\<close>

text \<open>
  C4, as the code has it. A list query with page \<open>page \<ge> 1\<close> and page size
  \<open>P \<ge> 1\<close> over the \<open>N\<close> reports that its status parameter selects succeeds. Its
  items are in descending order of \<open>createdAt\<close>: they are the slice that skips
  \<open>(page - 1) * P\<close> records and takes \<open>P\<close> of the selected reports as the database
  sorts them at this query, a list that holds every selected report exactly as often as
  the collection does. \<open>totalRecords\<close> is \<open>N\<close> and \<open>totalPages\<close> is \<open>\<lceil>N / P\<rceil>\<close>.
  When no two of the selected reports agree on \<open>createdAt\<close>, the pages
  \<open>1, \<dots>, \<lceil>N / P\<rceil>\<close>, each fetched by a query of its own (\<open>ties k\<close> is the order
  of ties at the query for page \<open>k\<close>), are one after the other the whole sorted list,
  and so hold every selected report exactly once.
\<close>

theorem list_pagination:
  assumes "1 \<le> page_of req" and "1 \<le> limit_of req"
  shows "(\<exists>r. route_list tie req w = Inr r \<and>
            data r = map (populate_reportedBy w)
                       (take (nat (limit_of req))
                          (drop (nat ((page_of req - 1) * limit_of req)) (listing tie (status_q req) w))) \<and>
            sorted_wrt (\<lambda>a b. createdAt (doc b) \<le> createdAt (doc a)) (data r) \<and>
            totalRecords r = length (filter (matches (build_query (status_q req))) (potholes w)) \<and>
            totalPages r = Finite (of_int \<lceil>real (totalRecords r) / real_of_int (limit_of req)\<rceil>) \<and>
            currentPage r = page_of req) \<and>
         mset (listing tie (status_q req) w) =
           filter_mset (matches (build_query (status_q req))) (mset (potholes w)) \<and>
         (distinct (map createdAt (filter (matches (build_query (status_q req))) (potholes w))) \<longrightarrow>
            concat (map (\<lambda>k. items_of (route_list (ties k) (req\<lparr>page_q := Some (int k)\<rparr>) w))
                      [1..<Suc (nat \<lceil>real (length (filter (matches (build_query (status_q req))) (potholes w))) /
                                      real_of_int (limit_of req)\<rceil>)]) =
              map (populate_reportedBy w) (listing tie (status_q req) w) \<and>
            mset (map doc (concat (map (\<lambda>k. items_of (route_list (ties k) (req\<lparr>page_q := Some (int k)\<rparr>) w))
                      [1..<Suc (nat \<lceil>real (length (filter (matches (build_query (status_q req))) (potholes w))) /
                                      real_of_int (limit_of req)\<rceil>)]))) =
              filter_mset (matches (build_query (status_q req))) (mset (potholes w)))"
proof -
  let ?P = "limit_of req"
  let ?F = "filter (matches (build_query (status_q req))) (potholes w)"
  let ?L = "listing tie (status_q req) w"
  let ?n = "nat \<lceil>real (length ?F) / real_of_int ?P\<rceil>"
  from assms have skip: "0 \<le> (page_of req - 1) * ?P" by simp
  from assms(2) have P0: "?P \<noteq> 0" "nat \<bar>?P\<bar> = nat ?P" by simp_all
  have len: "length ?L = length ?F"
    by (simp add: length_listing countDocuments_def)
  have sorted_slice: "sorted_wrt (\<lambda>a b. createdAt (doc b) \<le> createdAt (doc a))
      (map (populate_reportedBy w) (take (nat ?P) (drop (nat ((page_of req - 1) * ?P)) ?L)))"
    using sorted_listing [of tie "status_q req" w]
    by (simp add: sorted_wrt_map populate_reportedBy_def)
  have first: "\<exists>r. route_list tie req w = Inr r \<and>
            data r = map (populate_reportedBy w)
                       (take (nat ?P) (drop (nat ((page_of req - 1) * ?P)) ?L)) \<and>
            sorted_wrt (\<lambda>a b. createdAt (doc b) \<le> createdAt (doc a)) (data r) \<and>
            totalRecords r = length ?F \<and>
            totalPages r = Finite (of_int \<lceil>real (totalRecords r) / real_of_int ?P\<rceil>) \<and>
            currentPage r = page_of req"
    using route_list_ok [OF skip, of tie w] P0 sorted_slice total_pages_positive [OF assms(2)]
    by (simp add: countDocuments_def skip_limit_def)
  have second: "mset ?L = filter_mset (matches (build_query (status_q req))) (mset (potholes w))"
    by (rule mset_listing)
  have third: "concat (map (\<lambda>k. items_of (route_list (ties k) (req\<lparr>page_q := Some (int k)\<rparr>) w)) [1..<Suc ?n]) =
                 map (populate_reportedBy w) ?L \<and>
               mset (map doc (concat (map (\<lambda>k. items_of (route_list (ties k) (req\<lparr>page_q := Some (int k)\<rparr>) w))
                 [1..<Suc ?n]))) = filter_mset (matches (build_query (status_q req))) (mset (potholes w))"
    if d: "distinct (map createdAt ?F)"
  proof -
    have page: "items_of (route_list (ties k) (req\<lparr>page_q := Some (int k)\<rparr>) w) =
        map (populate_reportedBy w) (take (nat ?P) (drop ((k - 1) * nat ?P) ?L))"
      if "1 \<le> k" for k
    proof -
      let ?req = "req\<lparr>page_q := Some (int k)\<rparr>"
      have l: "limit_of ?req = ?P" "status_q ?req = status_q req" "page_of ?req = int k"
        by (simp_all add: limit_of_def page_of_def)
      from that assms(2) have s: "0 \<le> (page_of ?req - 1) * limit_of ?req" by (simp add: l)
      from that have k1: "int k - 1 = int (k - 1)" by simp
      have sk: "nat ((int k - 1) * ?P) = (k - 1) * nat ?P"
        using assms(2) by (simp add: k1 nat_mult_distrib)
      have same: "listing (ties k) (status_q req) w = ?L"
        using d by (rule listing_tie_irrelevant)
      from route_list_ok [OF s, of "ties k" w] P0 sk same show ?thesis
        by (simp add: items_of_def l skip_limit_def)
    qed
    have "map (\<lambda>k. items_of (route_list (ties k) (req\<lparr>page_q := Some (int k)\<rparr>) w)) [1..<Suc ?n] =
          map (\<lambda>k. map (populate_reportedBy w) (take (nat ?P) (drop ((k - 1) * nat ?P) ?L))) [1..<Suc ?n]"
    proof (rule map_cong [OF refl])
      fix k assume "k \<in> set [1..<Suc ?n]"
      then have "1 \<le> k" by auto
      then show "items_of (route_list (ties k) (req\<lparr>page_q := Some (int k)\<rparr>) w) =
          map (populate_reportedBy w) (take (nat ?P) (drop ((k - 1) * nat ?P) ?L))"
        by (rule page)
    qed
    then have "concat (map (\<lambda>k. items_of (route_list (ties k) (req\<lparr>page_q := Some (int k)\<rparr>) w)) [1..<Suc ?n]) =
          map (populate_reportedBy w)
            (concat (map (\<lambda>k. take (nat ?P) (drop ((k - 1) * nat ?P) ?L)) [1..<Suc ?n]))"
      by (simp only: map_concat map_map comp_def)
    also have "\<dots> = map (populate_reportedBy w) (take (?n * nat ?P) ?L)"
      by (simp only: concat_pages_from_one)
    also have "\<dots> = map (populate_reportedBy w) ?L"
      using pages_cover [OF assms(2), of "length ?F"] by (simp add: len)
    finally have c: "concat (map (\<lambda>k. items_of (route_list (ties k) (req\<lparr>page_q := Some (int k)\<rparr>) w)) [1..<Suc ?n]) =
          map (populate_reportedBy w) ?L" .
    have "map doc (map (populate_reportedBy w) ?L) = ?L"
      by (simp add: populate_reportedBy_def comp_def)
    with c second show ?thesis by simp
  qed
  from first second third show ?thesis by blast
qed

theorem list_pagination_witness:
  "1 \<le> page_of \<lparr>status_q = None, page_q = Some 2, limit_q = Some 2\<rparr> \<and>
   1 \<le> limit_of \<lparr>status_q = None, page_q = Some 2, limit_q = Some 2\<rparr> \<and>
   distinct (map createdAt (filter (matches (build_query None)) (potholes sample_world))) \<and>
   (\<exists>r. route_list natural_order \<lparr>status_q = None, page_q = Some 2, limit_q = Some 2\<rparr> sample_world = Inr r \<and>
      data r = map (populate_reportedBy sample_world)
        [sample_pothole 1 (12 / 10) ''/public/uploads/pothole-1000-1.jpg'' ''pending'' 1000 1000] \<and>
      totalRecords r = 3 \<and> totalPages r = Finite 2 \<and> currentPage r = 2) \<and>
   concat (map (\<lambda>k. items_of (route_list (rank_first k)
                        \<lparr>status_q = None, page_q = Some (int k), limit_q = Some 2\<rparr> sample_world))
             [1..<3]) =
     map (populate_reportedBy sample_world)
       [sample_pothole 3 (9 / 10) ''/public/uploads/pothole-3000-3.jpg'' ''pending'' 3000 3001,
        sample_pothole 2 (34 / 10) ''/public/uploads/pothole-2000-2.jpg'' ''inprocess'' 2000 2500,
        sample_pothole 1 (12 / 10) ''/public/uploads/pothole-1000-1.jpg'' ''pending'' 1000 1000]"
proof -
  let ?req = "\<lparr>status_q = None, page_q = Some 2, limit_q = Some 2\<rparr>"
  have p: "1 \<le> page_of ?req" by (simp add: page_of_def)
  have l: "1 \<le> limit_of ?req" by (simp add: limit_of_def)
  have d: "distinct (map createdAt (filter (matches (build_query None)) (potholes sample_world)))"
    by (simp add: build_query_def matches_def sample_world_def sample_pothole_def)
  have f: "length (filter (matches (build_query None)) (potholes sample_world)) = 3"
    by (simp add: build_query_def matches_def sample_world_def sample_pothole_def)
  have v: "page_of ?req = 2" "limit_of ?req = 2" "status_q ?req = None"
    by (simp_all add: page_of_def limit_of_def)
  have n: "Suc (nat \<lceil>real 3 / real_of_int 2\<rceil>) = 3"
    by simp
  have u: "\<And>k. ?req\<lparr>page_q := Some (int k)\<rparr> = \<lparr>status_q = None, page_q = Some (int k), limit_q = Some 2\<rparr>"
    by simp
  note t = list_pagination [OF p l, of natural_order sample_world rank_first, unfolded v f n u]
  from t have a: "\<exists>r. route_list natural_order ?req sample_world = Inr r \<and>
      data r = map (populate_reportedBy sample_world)
        [sample_pothole 1 (12 / 10) ''/public/uploads/pothole-1000-1.jpg'' ''pending'' 1000 1000] \<and>
      totalRecords r = 3 \<and> totalPages r = Finite 2 \<and> currentPage r = 2"
    by (auto simp: listing_sample)
  from t d have b: "concat (map (\<lambda>k. items_of (route_list (rank_first k)
                        \<lparr>status_q = None, page_q = Some (int k), limit_q = Some 2\<rparr> sample_world))
             [1..<3]) = map (populate_reportedBy sample_world) (listing natural_order None sample_world)"
    by blast
  from p l d a b show ?thesis by (simp only: listing_sample)
qed

text \<open>
  The claim as the specification states it has the pages, one after the other, hold
  every record exactly once. The two reports of this collection agree on
  \<open>createdAt\<close>. With a page size of 1, when the database orders the tie one way at
  the query for page 1 and the other way at the query for page 2, both pages hold
  report 1, and report 2 is on neither.
\<close>

theorem list_pages_repeat_on_tie:
  "wf tied_world \<and>
   items_of (route_list (rank_first 1) \<lparr>status_q = None, page_q = Some 1, limit_q = Some 1\<rparr> tied_world) @
   items_of (route_list (rank_first 2) \<lparr>status_q = None, page_q = Some 2, limit_q = Some 1\<rparr> tied_world) =
     [\<lparr>doc = sample_pothole 1 (12 / 10) ''/public/uploads/pothole-1000-1.jpg'' ''pending'' 1000 1000,
       reporter = None\<rparr>,
      \<lparr>doc = sample_pothole 1 (12 / 10) ''/public/uploads/pothole-1000-1.jpg'' ''pending'' 1000 1000,
       reporter = None\<rparr>]"
  by (simp add: route_list_def Pothole_find_def skip_limit_def countDocuments_def page_of_def limit_of_def
      build_query_def matches_def sort_createdAt_desc_def items_of_def populate_reportedBy_def
      rank_first_def tied_world_def sample_pothole_def wf_def status_enum_def)

section \<open>Page and limit out of range\<close>

text \<open>
  C8, as the code has it. The route uses the page and the limit as they are supplied;
  neither is replaced by 1. When \<open>(page - 1) * limit\<close> is negative, as it is for a
  page below 1 with a limit of at least 1, the database rejects the negative skip and
  the route answers with status 500. Otherwise the query succeeds, \<open>currentPage\<close> is
  the page supplied, and \<open>totalPages\<close> is \<open>Math.ceil(totalRecords / limit)\<close> for the
  limit supplied. A limit of 0 is no limit: every record of the listing is returned,
  and \<open>totalPages\<close> is not a finite number.
\<close>

theorem list_parameters_as_supplied:
  "((page_of req - 1) * limit_of req < 0 \<longrightarrow>
      route_list tie req w = Inl (ServerError (MongoServerError ''Skip value must be non-negative'')) \<and>
      http_status (ServerError (MongoServerError ''Skip value must be non-negative'')) = 500) \<and>
   (0 \<le> (page_of req - 1) * limit_of req \<longrightarrow>
      (\<exists>r. route_list tie req w = Inr r \<and>
         currentPage r = page_of req \<and>
         totalRecords r = length (listing tie (status_q req) w) \<and>
         totalPages r = Math_ceil (js_div (int (totalRecords r)) (limit_of req)) \<and>
         (limit_of req \<noteq> 0 \<longrightarrow>
            data r = map (populate_reportedBy w)
              (take (nat \<bar>limit_of req\<bar>)
                 (drop (nat ((page_of req - 1) * limit_of req)) (listing tie (status_q req) w)))) \<and>
         (limit_of req = 0 \<longrightarrow>
            data r = map (populate_reportedBy w) (listing tie (status_q req) w) \<and>
            totalPages r = (if totalRecords r = 0 then NaN else PosInfinity))))"
proof (intro conjI impI)
  assume "(page_of req - 1) * limit_of req < 0"
  then show "route_list tie req w = Inl (ServerError (MongoServerError ''Skip value must be non-negative''))"
    by (rule route_list_negative_skip)
next
  show "http_status (ServerError (MongoServerError ''Skip value must be non-negative'')) = 500"
    by (simp add: http_status_def)
next
  assume s: "0 \<le> (page_of req - 1) * limit_of req"
  show "\<exists>r. route_list tie req w = Inr r \<and>
         currentPage r = page_of req \<and>
         totalRecords r = length (listing tie (status_q req) w) \<and>
         totalPages r = Math_ceil (js_div (int (totalRecords r)) (limit_of req)) \<and>
         (limit_of req \<noteq> 0 \<longrightarrow>
            data r = map (populate_reportedBy w)
              (take (nat \<bar>limit_of req\<bar>)
                 (drop (nat ((page_of req - 1) * limit_of req)) (listing tie (status_q req) w)))) \<and>
         (limit_of req = 0 \<longrightarrow>
            data r = map (populate_reportedBy w) (listing tie (status_q req) w) \<and>
            totalPages r = (if totalRecords r = 0 then NaN else PosInfinity))"
    using route_list_ok [OF s, of tie w]
    by (simp add: length_listing Math_ceil_def js_div_def skip_limit_def)
qed

theorem list_parameters_as_supplied_witness:
  "(page_of \<lparr>status_q = None, page_q = Some 0, limit_q = Some 10\<rparr> - 1) *
      limit_of \<lparr>status_q = None, page_q = Some 0, limit_q = Some 10\<rparr> < 0 \<and>
   route_list natural_order \<lparr>status_q = None, page_q = Some 0, limit_q = Some 10\<rparr> sample_world =
     Inl (ServerError (MongoServerError ''Skip value must be non-negative'')) \<and>
   0 \<le> (page_of \<lparr>status_q = None, page_q = Some 2, limit_q = Some 0\<rparr> - 1) *
      limit_of \<lparr>status_q = None, page_q = Some 2, limit_q = Some 0\<rparr> \<and>
   limit_of \<lparr>status_q = None, page_q = Some 2, limit_q = Some 0\<rparr> = 0 \<and>
   (\<exists>r. route_list natural_order \<lparr>status_q = None, page_q = Some 2, limit_q = Some 0\<rparr> sample_world = Inr r \<and>
      currentPage r = 2 \<and> totalRecords r = 3 \<and> totalPages r = PosInfinity \<and> length (data r) = 3)"
proof -
  let ?a = "\<lparr>status_q = None, page_q = Some 0, limit_q = Some 10\<rparr>"
  let ?b = "\<lparr>status_q = None, page_q = Some 2, limit_q = Some 0\<rparr>"
  have a: "(page_of ?a - 1) * limit_of ?a < 0" by (simp add: page_of_def limit_of_def)
  have b: "0 \<le> (page_of ?b - 1) * limit_of ?b" by (simp add: page_of_def limit_of_def)
  have l: "limit_of ?b = 0" "page_of ?b = 2" "status_q ?b = None" by (simp_all add: page_of_def limit_of_def)
  from list_parameters_as_supplied [of ?a natural_order sample_world] a
  have 1: "route_list natural_order ?a sample_world = Inl (ServerError (MongoServerError ''Skip value must be non-negative''))"
    by blast
  from list_parameters_as_supplied [of ?b natural_order sample_world] b obtain r where
    r: "route_list natural_order ?b sample_world = Inr r" "currentPage r = page_of ?b"
       "totalRecords r = length (listing natural_order (status_q ?b) sample_world)"
       "limit_of ?b = 0 \<longrightarrow>
            data r = map (populate_reportedBy sample_world) (listing natural_order (status_q ?b) sample_world) \<and>
            totalPages r = (if totalRecords r = 0 then NaN else PosInfinity)"
    by blast
  from r l have "currentPage r = 2 \<and> totalRecords r = 3 \<and> totalPages r = PosInfinity \<and> length (data r) = 3"
    by (simp add: listing_sample)
  with r(1) have 2: "\<exists>r. route_list natural_order ?b sample_world = Inr r \<and>
      currentPage r = 2 \<and> totalRecords r = 3 \<and> totalPages r = PosInfinity \<and> length (data r) = 3"
    by blast
  from a 1 b l(1) 2 show ?thesis by blast
qed

text \<open>
  The claim as the specification states it has a limit of 0 behave as a limit of 1. On
  the three sample reports, page 1 with limit 0 returns all three and a
  \<open>totalPages\<close> of \<open>Infinity\<close>; page 1 with limit 1 returns one and a
  \<open>totalPages\<close> of 3.
\<close>

theorem list_limit_zero_not_one:
  "map_sum id totalPages (route_list natural_order \<lparr>status_q = None, page_q = Some 1, limit_q = Some 0\<rparr> sample_world) =
     Inr PosInfinity \<and>
   map_sum id totalPages (route_list natural_order \<lparr>status_q = None, page_q = Some 1, limit_q = Some 1\<rparr> sample_world) =
     Inr (Finite 3) \<and>
   length (items_of (route_list natural_order \<lparr>status_q = None, page_q = Some 1, limit_q = Some 0\<rparr> sample_world)) = 3 \<and>
   length (items_of (route_list natural_order \<lparr>status_q = None, page_q = Some 1, limit_q = Some 1\<rparr> sample_world)) = 1"
  by (simp add: route_list_def Pothole_find_def skip_limit_def countDocuments_def page_of_def limit_of_def
      build_query_def matches_def sort_createdAt_desc_def natural_order_def items_of_def
      Math_ceil_def js_div_def sample_world_def sample_pothole_def)

section \<open>The status filter of the list query\<close>



end
